theory Spec2Isabelle
  imports Complex_Main
begin

section \<open>Projective operations of DPVO (dpvo/projective\_ops.py)\<close>

text \<open>
  The module works on batched tensors of floating-point numbers. The embedding reads

  \<^item> a scalar as a \<open>real\<close>, so \<open>Z.clamp(min=0.1)\<close> is \<open>max Z (1/10)\<close>; infinities and NaN
    are outside the model, and so is rounding, except for the round trip of \<open>iproj\<close> and
    \<open>proj\<close>, which is also embedded with every operation rounded to float32;
  \<^item> a tensor axis as a list; the leading batch axis is a single element, as the
    \<open>view(1, len(ii), ...)\<close> calls of the Jacobian branch of \<open>transform\<close> require;
  \<^item> a patch \<open>patches[0, k]\<close> (shape \<open>3 \<times> p \<times> p\<close>) as a \<open>p \<times> p\<close> grid of triples
    \<open>(x, y, d)\<close>, which is what \<open>patches.unbind(dim=2)\<close> pairs up;
  \<^item> a homogeneous point and a row of intrinsics as 4-tuples, following
    \<open>X, Y, Z, W = X.unbind(dim=-1)\<close> and \<open>fx, fy, cx, cy = intrinsics...unbind\<close>;
  \<^item> an index tensor (\<open>ii\<close>, \<open>jj\<close>, \<open>kk\<close>) as a list of integers, a negative entry
    counting from the end and an entry out of range raising \<open>IndexError\<close>; index
    tensors of different lengths end in \<open>ShapeError\<close> (the broadcasting of an index
    tensor with a single entry is not modelled);
  \<^item> a division as the division of the reals: a zero focal length, which the data model
    excludes, gives 0 here and not an infinity;
  \<^item> an SE3 pose by its data vector \<open>(tx, ty, tz, qx, qy, qz, qw)\<close>, the layout that
    \<open>Gij[..., 3:] = [0,0,0,1]\<close> and \<open>Gij.data[...] = [-0.1,0,0,0,0,0,1]\<close> write to.
\<close>

subsection \<open>Data\<close>

type_synonym point4 = "real \<times> real \<times> real \<times> real"
type_synonym intr = "real \<times> real \<times> real \<times> real"
type_synonym patch = "(real \<times> real \<times> real) list list"
type_synonym vec3 = "real \<times> real \<times> real"
type_synonym quat = "real \<times> real \<times> real \<times> real"
type_synonym pose = "vec3 \<times> quat"
type_synonym mat = "real list list"

datatype error = IndexError | ShapeError

definition MIN_DEPTH :: real where
  "MIN_DEPTH = 2 / 10"

subsection \<open>Indexing with an index tensor\<close>

definition wrap :: "nat \<Rightarrow> int \<Rightarrow> int" where
  "wrap n i = (if i < 0 then int n + i else i)"

definition in_range :: "nat \<Rightarrow> int \<Rightarrow> bool" where
  "in_range n i \<longleftrightarrow> 0 \<le> wrap n i \<and> wrap n i < int n"

definition item :: "'a list \<Rightarrow> int \<Rightarrow> 'a" where
  "item xs i = xs ! nat (wrap (length xs) i)"

definition getitem :: "'a list \<Rightarrow> int \<Rightarrow> error + 'a" where
  "getitem xs i = (if in_range (length xs) i then Inr (item xs i) else Inl IndexError)"

text \<open>\<open>xs[:, idx]\<close>: one entry per index, the first bad index raising.\<close>

fun gather :: "'a list \<Rightarrow> int list \<Rightarrow> error + 'a list" where
  "gather xs [] = Inr []"
| "gather xs (i # idx) =
     (case getitem xs i of
        Inl e \<Rightarrow> Inl e
      | Inr v \<Rightarrow> (case gather xs idx of Inl e \<Rightarrow> Inl e | Inr vs \<Rightarrow> Inr (v # vs)))"

subsection \<open>Inverse projection and projection of patches\<close>

text \<open>\<open>iproj(patches, intrinsics)\<close>: the intrinsics of an edge are broadcast over its grid.\<close>

definition iproj :: "patch list \<Rightarrow> intr list \<Rightarrow> point4 list list list" where
  "iproj patches intrinsics =
     map2 (\<lambda>g (fx, fy, cx, cy).
             map (map (\<lambda>(x, y, d).
               (let i = 1;
                    xn = (x - cx) / fx;
                    yn = (y - cy) / fy
                in (xn, yn, i, d)))) g)
          patches intrinsics"

text \<open>\<open>proj(X, intrinsics, depth)\<close>; a pixel is the list \<open>[x, y]\<close> or \<open>[x, y, d]\<close>.\<close>

definition proj :: "point4 list list list \<Rightarrow> intr list \<Rightarrow> bool \<Rightarrow> real list list list list" where
  "proj Xs intrinsics depth =
     map2 (\<lambda>g (fx, fy, cx, cy).
             map (map (\<lambda>(X, Y, Z, W).
               (let d = 1 / max Z (1 / 10);
                    x = fx * (d * X) + cx;
                    y = fy * (d * Y) + cy
                in if depth then [x, y, d] else [x, y]))) g)
          Xs intrinsics"

subsection \<open>The pose group\<close>

text \<open>
  \<open>transform\<close> uses the group through five operations of \<open>dpvo.lietorch.SE3\<close>:
  \<open>G * H\<close>, \<open>G.inv()\<close>, \<open>G * X\<close> on homogeneous points, \<open>G.adjT(a)\<close> on tangent
  covectors and \<open>G.matrix()\<close>. That module is not among the sources at hand, so the
  operations are a parameter of everything below.
\<close>

record lie =
  lie_mul :: "pose \<Rightarrow> pose \<Rightarrow> pose"
  lie_inv :: "pose \<Rightarrow> pose"
  lie_act :: "pose \<Rightarrow> point4 \<Rightarrow> point4"
  lie_adjT :: "pose \<Rightarrow> real list \<Rightarrow> real list"
  lie_matrix :: "pose \<Rightarrow> mat"

text \<open>
  Modelled from the spec: the operations of the Lie-group pose adapter (\<open>compose\<close>,
  \<open>inverse\<close>, \<open>act\<close>, \<open>adjoint_transpose\<close> and the 4x4 matrix) for rigid transforms
  stored as translation plus unit quaternion \<open>(qx, qy, qz, qw)\<close>; the implementation,
  \<open>dpvo/lietorch\<close>, is missing from the sources. \<open>act\<close> applies the rotation to
  \<open>(X, Y, Z)\<close> and adds the translation scaled by \<open>W\<close>, which it leaves unchanged.
\<close>

definition cross :: "vec3 \<Rightarrow> vec3 \<Rightarrow> vec3" where
  "cross u v = (case u of (a, b, c) \<Rightarrow> case v of (x, y, z) \<Rightarrow>
     (b * z - c * y, c * x - a * z, a * y - b * x))"

definition vadd :: "vec3 \<Rightarrow> vec3 \<Rightarrow> vec3" where
  "vadd u v = (case u of (a, b, c) \<Rightarrow> case v of (x, y, z) \<Rightarrow> (a + x, b + y, c + z))"

definition vscale :: "real \<Rightarrow> vec3 \<Rightarrow> vec3" where
  "vscale s v = (case v of (x, y, z) \<Rightarrow> (s * x, s * y, s * z))"

definition qrot :: "quat \<Rightarrow> vec3 \<Rightarrow> vec3" where
  "qrot q v = (case q of (x, y, z, w) \<Rightarrow>
     (let u = (x, y, z); uv = vscale 2 (cross u v)
      in vadd v (vadd (vscale w uv) (cross u uv))))"

definition qmul :: "quat \<Rightarrow> quat \<Rightarrow> quat" where
  "qmul p q = (case p of (x1, y1, z1, w1) \<Rightarrow> case q of (x2, y2, z2, w2) \<Rightarrow>
     (w1 * x2 + x1 * w2 + y1 * z2 - z1 * y2,
      w1 * y2 - x1 * z2 + y1 * w2 + z1 * x2,
      w1 * z2 + x1 * y2 - y1 * x2 + z1 * w2,
      w1 * w2 - x1 * x2 - y1 * y2 - z1 * z2))"

definition qconj :: "quat \<Rightarrow> quat" where
  "qconj q = (case q of (x, y, z, w) \<Rightarrow> (- x, - y, - z, w))"

definition se3_mul :: "pose \<Rightarrow> pose \<Rightarrow> pose" where
  "se3_mul G H = (case G of (t1, q1) \<Rightarrow> case H of (t2, q2) \<Rightarrow>
     (vadd t1 (qrot q1 t2), qmul q1 q2))"

definition se3_inv :: "pose \<Rightarrow> pose" where
  "se3_inv G = (case G of (t, q) \<Rightarrow> (vscale (- 1) (qrot (qconj q) t), qconj q))"

definition se3_act :: "pose \<Rightarrow> point4 \<Rightarrow> point4" where
  "se3_act G P = (case G of (t, q) \<Rightarrow> case P of (X, Y, Z, W) \<Rightarrow>
     (case vadd (qrot q (X, Y, Z)) (vscale W t) of (X', Y', Z') \<Rightarrow> (X', Y', Z', W)))"

fun se3_adjT :: "pose \<Rightarrow> real list \<Rightarrow> real list" where
  "se3_adjT (t, q) [a, b, c, d, e, f] =
     (case qrot (qconj q) (a, b, c) of (a', b', c') \<Rightarrow>
      case qrot (qconj q) (vadd (d, e, f) (cross (a, b, c) t)) of (d', e', f') \<Rightarrow>
        [a', b', c', d', e', f'])"
| "se3_adjT G v = v"

definition se3_matrix :: "pose \<Rightarrow> mat" where
  "se3_matrix G = (case G of ((tx, ty, tz), q) \<Rightarrow>
     case qrot q (1, 0, 0) of (r00, r10, r20) \<Rightarrow>
     case qrot q (0, 1, 0) of (r01, r11, r21) \<Rightarrow>
     case qrot q (0, 0, 1) of (r02, r12, r22) \<Rightarrow>
       [[r00, r01, r02, tx],
        [r10, r11, r12, ty],
        [r20, r21, r22, tz],
        [0, 0, 0, 1]])"

definition SE3 :: lie where
  "SE3 = \<lparr>lie_mul = se3_mul, lie_inv = se3_inv, lie_act = se3_act,
          lie_adjT = se3_adjT, lie_matrix = se3_matrix\<rparr>"

subsection \<open>transform\<close>

datatype transform_out =
    Coords (coords: "real list list list list")
  | CoordsValid (coords: "real list list list list") (mask: "real list list list")
  | CoordsJac (coords: "real list list list list") (cmask: "real list")
      (jacobians: "mat list \<times> mat list \<times> mat list")

fun collect :: "(error + 'a) list \<Rightarrow> error + 'a list" where
  "collect [] = Inr []"
| "collect (r # rs) =
     (case r of
        Inl e \<Rightarrow> Inl e
      | Inr v \<Rightarrow> (case collect rs of Inl e \<Rightarrow> Inl e | Inr vs \<Rightarrow> Inr (v # vs)))"

text \<open>\<open>X1[..., p//2, p//2, :]\<close> with \<open>p = X1.shape[2]\<close>, for the grid of one edge.\<close>

definition centre :: "'a list list \<Rightarrow> error + 'a" where
  "centre g =
     (let p = length g in
      if p div 2 < length g \<and> p div 2 < length (g ! (p div 2))
      then Inr (g ! (p div 2) ! (p div 2)) else Inl IndexError)"

definition matmul :: "mat \<Rightarrow> mat \<Rightarrow> mat" where
  "matmul A B = map (\<lambda>row. map (\<lambda>col. sum_list (map2 (*) row col)) (transpose B)) A"

text \<open>The two \<open>torch.stack([...]).view(1, len(ii), r, c)\<close> blocks of one edge.\<close>

definition Ja :: "point4 \<Rightarrow> mat" where
  "Ja P = (case P of (X, Y, Z, H) \<Rightarrow>
     (let zo = 0 in
      [[H, zo, zo, zo, Z, - Y],
       [zo, H, zo, - Z, zo, X],
       [zo, zo, H, Y, - X, zo],
       [zo, zo, zo, zo, zo, zo]]))"

definition Jp :: "intr \<Rightarrow> point4 \<Rightarrow> mat" where
  "Jp K P = (case K of (fx, fy, cx, cy) \<Rightarrow> case P of (X, Y, Z, H) \<Rightarrow>
     (let zo = 0;
          d = (if \<bar>Z\<bar> > 2 / 10 then 1 / Z else 0)
      in [[fx * d, zo, - fx * X * d * d, zo],
          [zo, fy * d, - fy * Y * d * d, zo]]))"

definition transform ::
  "lie \<Rightarrow> pose list \<Rightarrow> patch list \<Rightarrow> intr list \<Rightarrow> int list \<Rightarrow> int list \<Rightarrow> int list
     \<Rightarrow> bool \<Rightarrow> bool \<Rightarrow> bool \<Rightarrow> bool \<Rightarrow> error + transform_out" where
  "transform L poses patches intrinsics ii jj kk depth valid jacobian tonly =
     (case gather patches kk of Inl e \<Rightarrow> Inl e | Inr Pk \<Rightarrow>
      (case gather intrinsics ii of Inl e \<Rightarrow> Inl e | Inr Ki \<Rightarrow>
      if length Pk \<noteq> length Ki then Inl ShapeError else
      let X0 = iproj Pk Ki in
      (case gather poses jj of Inl e \<Rightarrow> Inl e | Inr Gj \<Rightarrow>
      (case gather poses ii of Inl e \<Rightarrow> Inl e | Inr Gi \<Rightarrow>
      if length Gj \<noteq> length Gi then Inl ShapeError else
      let Gij0 = map2 (\<lambda>gj gi. lie_mul L gj (lie_inv L gi)) Gj Gi;
          Gij = (if tonly then map (\<lambda>(t, q). (t, (0, 0, 0, 1))) Gij0 else Gij0);
          X1 = map2 (\<lambda>G. map (map (lie_act L G))) Gij X0 in
      (case gather intrinsics jj of Inl e \<Rightarrow> Inl e | Inr Kj \<Rightarrow>
      let x1 = proj X1 Kj depth in
      if jacobian then
        (case collect (map centre X1) of Inl e \<Rightarrow> Inl e | Inr C \<Rightarrow>
         let Jj = map2 (\<lambda>K P. matmul (Jp K P) (Ja P)) Kj C;
             Ji = map2 (\<lambda>G. map (\<lambda>row. map uminus (lie_adjT L G row))) Gij Jj;
             Jz = map2 (\<lambda>G (K, P). matmul (Jp K P) (map (drop 3) (lie_matrix L G)))
                    Gij (zip Kj C)
         in Inr (CoordsJac x1 (map (\<lambda>(X, Y, Z, H). if Z > 2 / 10 then 1 else 0) C)
                   (Ji, Jj, Jz)))
      else if valid then
        Inr (CoordsValid x1
               (map (map (map (\<lambda>(X, Y, Z, W). if Z > 2 / 10 then 1 else 0))) X1))
      else Inr (Coords x1))))))"

subsection \<open>flow\_mag\<close>

definition flow_mag ::
  "lie \<Rightarrow> pose list \<Rightarrow> patch list \<Rightarrow> intr list \<Rightarrow> int list \<Rightarrow> int list \<Rightarrow> int list
     \<Rightarrow> real \<Rightarrow> error + real list list list" where
  "flow_mag L poses patches intrinsics ii jj kk beta =
     (case transform L poses patches intrinsics ii ii kk False False False False of
        Inl e \<Rightarrow> Inl e | Inr r0 \<Rightarrow>
      (case transform L poses patches intrinsics ii jj kk False False False False of
        Inl e \<Rightarrow> Inl e | Inr r1 \<Rightarrow>
      (case transform L poses patches intrinsics ii jj kk False False False True of
        Inl e \<Rightarrow> Inl e | Inr r2 \<Rightarrow>
      let coords0 = coords r0; coords1 = coords r1; coords2 = coords r2;
          nrm = map (map (map (\<lambda>v. sqrt (sum_list (map (\<lambda>a. a * a) v)))));
          flow1 = nrm (map2 (map2 (map2 (map2 (-)))) coords1 coords0);
          flow2 = nrm (map2 (map2 (map2 (map2 (-)))) coords2 coords0)
      in Inr (map2 (map2 (map2 (\<lambda>a b. beta * a + (1 - beta) * b))) flow1 flow2))))"

subsection \<open>The dense path\<close>

text \<open>\<open>iproj_disps\<close>: the pixel grid is \<open>x\<close> = column index, \<open>y\<close> = row index.\<close>

definition iproj_disps :: "real list list list \<Rightarrow> intr list \<Rightarrow> point4 list list list" where
  "iproj_disps disps intrinsics =
     map2 (\<lambda>g (fx, fy, cx, cy).
             map2 (\<lambda>y row.
                     map2 (\<lambda>x dv.
                             (let i = 1;
                                  X = (real x - cx) / fx;
                                  Y = (real y - cy) / fy
                              in (X, Y, i, dv)))
                          [0..<length row] row)
                  [0..<length g] g)
          disps intrinsics"

text \<open>\<open>proj_disps\<close> returns the coordinates and, on request, the projection Jacobian.\<close>

definition proj_disps ::
  "point4 list list list \<Rightarrow> intr list \<Rightarrow> bool \<Rightarrow> bool
     \<Rightarrow> real list list list list \<times> mat list list list option" where
  "proj_disps Xs intrinsics jacobian return_depth =
     (let pt = (\<lambda>(fx, fy, cx, cy) (X, Y, Z, D).
                  (let Z = (if Z < (5 / 10) * MIN_DEPTH then 1 else Z);
                       d = 1 / Z;
                       x = fx * (X * d) + cx;
                       y = fy * (Y * d) + cy
                   in if return_depth then [x, y, D * d] else [x, y]));
          jac = (\<lambda>(fx, fy, cx, cy) (X, Y, Z, D).
                  (let Z = (if Z < (5 / 10) * MIN_DEPTH then 1 else Z);
                       d = 1 / Z;
                       zo = 0
                   in [[fx * d, zo, - fx * X * d * d, zo],
                       [zo, fy * d, - fy * Y * d * d, zo]]));
          coords = map2 (\<lambda>g K. map (map (pt K)) g) Xs intrinsics
      in if jacobian
         then (coords, Some (map2 (\<lambda>g K. map (map (jac K)) g) Xs intrinsics))
         else (coords, None))"

definition projective_transform ::
  "lie \<Rightarrow> pose list \<Rightarrow> real list list list \<Rightarrow> intr list \<Rightarrow> int list \<Rightarrow> int list
     \<Rightarrow> error + real list list list list \<times> real list list list list" where
  "projective_transform L poses depths intrinsics ii jj =
     (case gather depths ii of Inl e \<Rightarrow> Inl e | Inr Di \<Rightarrow>
      (case gather intrinsics ii of Inl e \<Rightarrow> Inl e | Inr Ki \<Rightarrow>
      let X0 = iproj_disps Di Ki in
      (case gather poses jj of Inl e \<Rightarrow> Inl e | Inr Gj \<Rightarrow>
      (case gather poses ii of Inl e \<Rightarrow> Inl e | Inr Gi \<Rightarrow>
      if length Gj \<noteq> length Gi then Inl ShapeError else
      let Gij0 = map2 (\<lambda>gj gi. lie_mul L gj (lie_inv L gi)) Gj Gi;
          Gij = map2 (\<lambda>G (i, j). if i = j then ((- (1 / 10), 0, 0), (0, 0, 0, 1)) else G)
                  Gij0 (zip ii jj);
          X1 = map2 (\<lambda>G. map (map (lie_act L G))) Gij X0 in
      (case gather intrinsics jj of Inl e \<Rightarrow> Inl e | Inr Kj \<Rightarrow>
      let x1 = proj X1 Kj False;
          valid = map2 (map2 (map2 (\<lambda>(X1, Y1, Z1, W1) (X0, Y0, Z0, W0).
                    [if Z1 > MIN_DEPTH \<and> Z0 > MIN_DEPTH then 1 else 0]))) X1 X0
      in Inr (x1, valid))))))"


section \<open>The specification's vocabulary\<close>

text \<open>
  The operations of sections 4.3 and 4.4 of the specification, on one point:
  \<open>inverse_project\<close>, \<open>project\<close> (patch policy, \<open>d = 1/clamp(Z, min=0.1)\<close> and
  \<open>x = fx\<cdot>d\<cdot>X + cx\<close>), and the per-edge reprojection through a relative transform.
\<close>

definition inverse_project :: "real \<times> real \<times> real \<Rightarrow> intr \<Rightarrow> point4" where
  "inverse_project patch K = (case patch of (x, y, d) \<Rightarrow> case K of (fx, fy, cx, cy) \<Rightarrow>
     (let xn = (x - cx) / fx; yn = (y - cy) / fy in (xn, yn, 1, d)))"

definition project :: "point4 \<Rightarrow> intr \<Rightarrow> bool \<Rightarrow> real list" where
  "project P K want_depth = (case P of (X, Y, Z, W) \<Rightarrow> case K of (fx, fy, cx, cy) \<Rightarrow>
     (let d = 1 / max Z (1 / 10);
          x = fx * d * X + cx;
          y = fy * d * Y + cy
      in if want_depth then [x, y, d] else [x, y]))"

definition reproject :: "lie \<Rightarrow> pose \<Rightarrow> intr \<Rightarrow> intr \<Rightarrow> bool \<Rightarrow> real \<times> real \<times> real \<Rightarrow> real list" where
  "reproject L G K_i K_j want_depth patch =
     project (lie_act L G (inverse_project patch K_i)) K_j want_depth"

text \<open>The relative transform of an edge, with the rotation reset in translation-only mode.\<close>

definition relative_pose :: "lie \<Rightarrow> pose list \<Rightarrow> bool \<Rightarrow> int \<Rightarrow> int \<Rightarrow> pose" where
  "relative_pose L poses tonly i j =
     (let G = lie_mul L (item poses j) (lie_inv L (item poses i))
      in if tonly then (fst G, (0, 0, 0, 1)) else G)"

text \<open>The transformed points \<open>X1\<close> of an edge \<open>(i, j, k)\<close>.\<close>

definition edge_points ::
  "lie \<Rightarrow> pose list \<Rightarrow> patch list \<Rightarrow> intr list \<Rightarrow> bool \<Rightarrow> int \<Rightarrow> int \<Rightarrow> int
     \<Rightarrow> point4 list list" where
  "edge_points L poses patches intrinsics tonly i j k =
     map (map (\<lambda>px. lie_act L (relative_pose L poses tonly i j)
                       (inverse_project px (item intrinsics i))))
         (item patches k)"

text \<open>
  The invariant of the visibility graph: three index arrays of one length, frame indices
  in range of the pose and intrinsics buffers, patch indices in range of the patch buffer.
\<close>

definition wf_edges ::
  "pose list \<Rightarrow> patch list \<Rightarrow> intr list \<Rightarrow> int list \<Rightarrow> int list \<Rightarrow> int list \<Rightarrow> bool" where
  "wf_edges poses patches intrinsics ii jj kk \<longleftrightarrow>
     length jj = length ii \<and> length kk = length ii \<and>
     (\<forall>i \<in> set ii. in_range (length poses) i \<and> in_range (length intrinsics) i) \<and>
     (\<forall>j \<in> set jj. in_range (length poses) j \<and> in_range (length intrinsics) j) \<and>
     (\<forall>k \<in> set kk. in_range (length patches) k)"

text \<open>A patch buffer of shape \<open>N \<times> 3 \<times> p \<times> p\<close>: every patch is a \<open>p \<times> p\<close> grid.\<close>

definition wf_patches :: "nat \<Rightarrow> patch list \<Rightarrow> bool" where
  "wf_patches p patches \<longleftrightarrow>
     (\<forall>g \<in> set patches. length g = p \<and> (\<forall>row \<in> set g. length row = p))"

text \<open>The transformed points of all edges, and the centre point of each edge's grid.\<close>

definition all_points ::
  "lie \<Rightarrow> pose list \<Rightarrow> patch list \<Rightarrow> intr list \<Rightarrow> bool \<Rightarrow> int list \<Rightarrow> int list \<Rightarrow> int list
     \<Rightarrow> point4 list list list" where
  "all_points L poses patches intrinsics tonly ii jj kk =
     map (\<lambda>(i, j, k). edge_points L poses patches intrinsics tonly i j k) (zip ii (zip jj kk))"

definition centre_point ::
  "lie \<Rightarrow> pose list \<Rightarrow> patch list \<Rightarrow> intr list \<Rightarrow> bool \<Rightarrow> int \<Rightarrow> int \<Rightarrow> int \<Rightarrow> point4" where
  "centre_point L poses patches intrinsics tonly i j k =
     (let g = item patches k; c = length g div 2
      in lie_act L (relative_pose L poses tonly i j) (inverse_project (g ! c ! c) (item intrinsics i)))"

text \<open>The validity flag \<open>(Z > 0.2).float()\<close> of a transformed point.\<close>

definition Zflag :: "point4 \<Rightarrow> real" where
  "Zflag P = (case P of (X, Y, Z, W) \<Rightarrow> if Z > 2 / 10 then 1 else 0)"

definition all_centres ::
  "lie \<Rightarrow> pose list \<Rightarrow> patch list \<Rightarrow> intr list \<Rightarrow> bool \<Rightarrow> int list \<Rightarrow> int list \<Rightarrow> int list
     \<Rightarrow> point4 list" where
  "all_centres L poses patches intrinsics tonly ii jj kk =
     map (\<lambda>(i, j, k). centre_point L poses patches intrinsics tonly i j k) (zip ii (zip jj kk))"

text \<open>
  A pixel computed from a point with the clamped inverse depth: \<open>d = 1/max(Z, 0.1)\<close> lies
  in \<open>(0, 10]\<close> and the pixel is \<open>(fx\<cdot>d\<cdot>X + cx, fy\<cdot>d\<cdot>Y + cy)\<close>.
\<close>

definition clamped_pixel :: "intr \<Rightarrow> point4 \<Rightarrow> real list \<Rightarrow> bool" where
  "clamped_pixel K P px \<longleftrightarrow> (case P of (X, Y, Z, W) \<Rightarrow> case K of (fx, fy, cx, cy) \<Rightarrow>
     (let d = 1 / max Z (1 / 10)
      in 0 < d \<and> d \<le> 10 \<and> take 2 px = [fx * (d * X) + cx, fy * (d * Y) + cy]))"






text \<open>
  The forward projection with the convention \<open>d = 1/Z\<close> (no clamp), and what it means
  for a 2x4 matrix to hold the partial derivatives of a pixel-valued function of the
  homogeneous point.
\<close>

definition pinhole :: "intr \<Rightarrow> point4 \<Rightarrow> real list" where
  "pinhole K P = (case K of (fx, fy, cx, cy) \<Rightarrow> case P of (X, Y, Z, W) \<Rightarrow>
     (let d = 1 / Z in [fx * d * X + cx, fy * d * Y + cy]))"

definition partials :: "(point4 \<Rightarrow> real) \<Rightarrow> point4 \<Rightarrow> real list \<Rightarrow> bool" where
  "partials f P row \<longleftrightarrow> (case P of (X, Y, Z, W) \<Rightarrow>
     length row = 4
     \<and> (DERIV (\<lambda>t. f (t, Y, Z, W)) X :> row ! 0)
     \<and> (DERIV (\<lambda>t. f (X, t, Z, W)) Y :> row ! 1)
     \<and> (DERIV (\<lambda>t. f (X, Y, t, W)) Z :> row ! 2)
     \<and> (DERIV (\<lambda>t. f (X, Y, Z, t)) W :> row ! 3))"

definition is_jacobian :: "(point4 \<Rightarrow> real list) \<Rightarrow> point4 \<Rightarrow> mat \<Rightarrow> bool" where
  "is_jacobian F P J \<longleftrightarrow>
     length J = 2 \<and> partials (\<lambda>Q. F Q ! 0) P (J ! 0) \<and> partials (\<lambda>Q. F Q ! 1) P (J ! 1)"

text \<open>The pixel that the source's \<open>proj\<close> returns for a single point.\<close>

definition proj1 :: "intr \<Rightarrow> point4 \<Rightarrow> real list" where
  "proj1 K Q = proj [[[Q]]] [K] False ! 0 ! 0 ! 0"

text \<open>
  The magnitude of the displacement between two pixels (\<open>(a - b).norm(dim=-1)\<close>).
\<close>

definition disp_norm :: "real list \<Rightarrow> real list \<Rightarrow> real" where
  "disp_norm u v = sqrt (sum_list (map (\<lambda>a. a * a) (map2 (-) u v)))"

text \<open>
  The dense path, pixel by pixel: the back-projected point of pixel \<open>(row r, column c)\<close>
  with depth-map value \<open>dv\<close>, the relative transform of an edge (with the placeholder that
  \<open>projective_transform\<close> writes where \<open>ii = jj\<close>), and the transformed point.
\<close>

definition source_point :: "intr \<Rightarrow> nat \<Rightarrow> nat \<Rightarrow> real \<Rightarrow> point4" where
  "source_point K r c dv = (case K of (fx, fy, cx, cy) \<Rightarrow>
     ((real c - cx) / fx, (real r - cy) / fy, 1, dv))"

definition dense_pose :: "lie \<Rightarrow> pose list \<Rightarrow> int \<Rightarrow> int \<Rightarrow> pose" where
  "dense_pose L poses i j =
     (if i = j then ((- (1 / 10), 0, 0), (0, 0, 0, 1))
      else lie_mul L (item poses j) (lie_inv L (item poses i)))"

definition dense_point ::
  "lie \<Rightarrow> pose list \<Rightarrow> real list list list \<Rightarrow> intr list \<Rightarrow> int \<Rightarrow> int \<Rightarrow> nat \<Rightarrow> nat \<Rightarrow> point4" where
  "dense_point L poses depths intrinsics i j r c =
     lie_act L (dense_pose L poses i j)
       (source_point (item intrinsics i) r c (item depths i ! r ! c))"

definition wf_dense ::
  "pose list \<Rightarrow> real list list list \<Rightarrow> intr list \<Rightarrow> int list \<Rightarrow> int list \<Rightarrow> bool" where
  "wf_dense poses depths intrinsics ii jj \<longleftrightarrow>
     length jj = length ii \<and>
     (\<forall>i \<in> set ii. in_range (length depths) i \<and> in_range (length poses) i
                     \<and> in_range (length intrinsics) i) \<and>
     (\<forall>j \<in> set jj. in_range (length poses) j \<and> in_range (length intrinsics) j)"

text \<open>The \<open>Z\<close> coordinate of a point, and the pixel of a point at the clamp floor (\<open>d = 10\<close>).\<close>

definition Zof :: "point4 \<Rightarrow> real" where
  "Zof P = (case P of (X, Y, Z, W) \<Rightarrow> Z)"

definition floor_pixel :: "intr \<Rightarrow> point4 \<Rightarrow> real list" where
  "floor_pixel K P = (case K of (fx, fy, cx, cy) \<Rightarrow> case P of (X, Y, Z, W) \<Rightarrow>
     [fx * (10 * X) + cx, fy * (10 * Y) + cy])"

text \<open>  The tensors are float32 (torch's default dtype). \<open>fl32\<close> rounds a real number to the
  nearest number with a 24-bit significand, ties to even, as every float32 operation does
  with its exact result. \<open>expo x\<close> is the exponent \<open>e\<close> with \<open>2\<^sup>e \<le> |x| < 2\<^sup>e\<^sup>+\<^sup>1\<close>, found by
  search. The exponent range is not bounded: overflow to infinity and gradual underflow
  (magnitudes of \<open>2\<^sup>1\<^sup>2\<^sup>8\<close> and more, or below \<open>2\<^sup>-\<^sup>1\<^sup>2\<^sup>6\<close>) are outside the model.
\<close>

definition rne :: "real \<Rightarrow> int" where
  "rne t = (let f = \<lfloor>t\<rfloor>; r = t - of_int f
            in if r < 1 / 2 then f else if 1 / 2 < r then f + 1
               else if even f then f else f + 1)"

fun expo_up :: "nat \<Rightarrow> real \<Rightarrow> int \<Rightarrow> int" where
  "expo_up n x e = (if n = 0 \<or> x < 2 powi (e + 1) then e else expo_up (n - 1) x (e + 1))"

fun expo_down :: "nat \<Rightarrow> real \<Rightarrow> int \<Rightarrow> int" where
  "expo_down n x e = (if n = 0 \<or> 2 powi e \<le> x then e else expo_down (n - 1) x (e - 1))"

declare expo_up.simps [simp del] expo_down.simps [simp del]

definition expo :: "real \<Rightarrow> int" where
  "expo x = (if 1 \<le> \<bar>x\<bar> then expo_up (nat \<lceil>\<bar>x\<bar>\<rceil>) \<bar>x\<bar> 0
             else expo_down (nat \<lceil>1 / \<bar>x\<bar>\<rceil>) \<bar>x\<bar> (- 1))"

definition fl32 :: "real \<Rightarrow> real" where
  "fl32 x = (if x = 0 then 0
             else (let q = 2 powi (expo x - 23) in of_int (rne (x / q)) * q))"

text \<open>  \<open>iproj\<close> and \<open>proj\<close> (with \<open>depth=False\<close>) on one pixel, every arithmetic operation of
  the source followed by a rounding \<open>rnd\<close>; the constant \<open>0.1\<close> of the clamp is rounded as
  well, and \<open>torch.ones_like\<close> gives exactly 1.
\<close>

definition iproj_fl :: "(real \<Rightarrow> real) \<Rightarrow> real \<times> real \<times> real \<Rightarrow> intr \<Rightarrow> point4" where
  "iproj_fl rnd patch K = (case patch of (x, y, d) \<Rightarrow> case K of (fx, fy, cx, cy) \<Rightarrow>
     (let i = 1;
          xn = rnd (rnd (x - cx) / fx);
          yn = rnd (rnd (y - cy) / fy)
      in (xn, yn, i, d)))"

definition proj_fl :: "(real \<Rightarrow> real) \<Rightarrow> point4 \<Rightarrow> intr \<Rightarrow> real list" where
  "proj_fl rnd P K = (case P of (X, Y, Z, W) \<Rightarrow> case K of (fx, fy, cx, cy) \<Rightarrow>
     (let d = rnd (1 / max Z (rnd (1 / 10)));
          x = rnd (rnd (fx * rnd (d * X)) + cx);
          y = rnd (rnd (fy * rnd (d * Y)) + cy)
      in [x, y]))"

section \<open>Properties\<close>

lemma length_iproj: "length (iproj P K) = min (length P) (length K)"
  by (simp add: iproj_def)

lemma length_proj: "length (proj Xs K b) = min (length Xs) (length K)"
  by (simp add: proj_def)

lemma gather_ok:
  "\<forall>i \<in> set idx. in_range (length xs) i \<Longrightarrow> gather xs idx = Inr (map (item xs) idx)"
  by (induction idx) (simp_all add: getitem_def)

lemma gather_bad:
  "\<not> (\<forall>i \<in> set idx. in_range (length xs) i) \<Longrightarrow> gather xs idx = Inl IndexError"
  by (induction idx) (auto simp: getitem_def split: sum.splits)

lemma X1_nth:
  assumes "length jj = length ii" "length kk = length ii" "e < length ii"
  shows "map2 (\<lambda>G. map (map (lie_act L G)))
           (let Gij0 = map2 (\<lambda>gj gi. lie_mul L gj (lie_inv L gi)) (map (item poses) jj) (map (item poses) ii)
            in if tonly then map (\<lambda>(t, q). (t, (0, 0, 0, 1))) Gij0 else Gij0)
           (iproj (map (item patches) kk) (map (item intrinsics) ii)) ! e
         = edge_points L poses patches intrinsics tonly (ii ! e) (jj ! e) (kk ! e)"
  using assms
  by (auto simp: iproj_def edge_points_def relative_pose_def inverse_project_def Let_def
      split: prod.splits)

lemma transform_unfold:
  assumes "wf_edges poses patches intrinsics ii jj kk"
  shows "transform L poses patches intrinsics ii jj kk depth valid jacobian tonly =
     (let X1 = map (\<lambda>(i, j, k). edge_points L poses patches intrinsics tonly i j k)
                 (zip ii (zip jj kk));
          Kj = map (item intrinsics) jj;
          Gij = map2 (relative_pose L poses tonly) ii jj;
          x1 = proj X1 Kj depth in
      if jacobian then
        (case collect (map centre X1) of Inl e \<Rightarrow> Inl e | Inr C \<Rightarrow>
         let Jj = map2 (\<lambda>K P. matmul (Jp K P) (Ja P)) Kj C;
             Ji = map2 (\<lambda>G. map (\<lambda>row. map uminus (lie_adjT L G row))) Gij Jj;
             Jz = map2 (\<lambda>G (K, P). matmul (Jp K P) (map (drop 3) (lie_matrix L G)))
                    Gij (zip Kj C)
         in Inr (CoordsJac x1 (map (\<lambda>(X, Y, Z, H). if Z > 2 / 10 then 1 else 0) C)
                   (Ji, Jj, Jz)))
      else if valid then
        Inr (CoordsValid x1
               (map (map (map (\<lambda>(X, Y, Z, W). if Z > 2 / 10 then 1 else 0))) X1))
      else Inr (Coords x1))"
proof -
  have len: "length jj = length ii" "length kk = length ii"
    using assms(1) by (simp_all add: wf_edges_def)
  have g: "gather patches kk = Inr (map (item patches) kk)"
    "gather intrinsics ii = Inr (map (item intrinsics) ii)"
    "gather intrinsics jj = Inr (map (item intrinsics) jj)"
    "gather poses ii = Inr (map (item poses) ii)"
    "gather poses jj = Inr (map (item poses) jj)"
    using assms by (simp_all add: wf_edges_def gather_ok)
  define Gij where "Gij = (if tonly
      then map (\<lambda>(t, q). (t, (0, 0, 0, 1)))
             (map2 (\<lambda>gj gi. lie_mul L gj (lie_inv L gi)) (map (item poses) jj) (map (item poses) ii))
      else map2 (\<lambda>gj gi. lie_mul L gj (lie_inv L gi)) (map (item poses) jj) (map (item poses) ii))"
  define X1 where "X1 = map2 (\<lambda>G. map (map (lie_act L G))) Gij
      (iproj (map (item patches) kk) (map (item intrinsics) ii))"
  have G: "Gij = map2 (relative_pose L poses tonly) ii jj"
    unfolding Gij_def using len
    by (intro nth_equalityI) (auto simp: relative_pose_def Let_def split: prod.splits)
  have X: "X1 = map (\<lambda>(i, j, k). edge_points L poses patches intrinsics tonly i j k)
                 (zip ii (zip jj kk))"
  proof (rule nth_equalityI)
    show "length X1 = length (map (\<lambda>(i, j, k). edge_points L poses patches intrinsics tonly i j k)
                 (zip ii (zip jj kk)))"
      using len by (simp add: X1_def G length_iproj)
  next
    fix e assume "e < length X1"
    then have e: "e < length ii" using len by (simp add: X1_def G length_iproj)
    show "X1 ! e = map (\<lambda>(i, j, k). edge_points L poses patches intrinsics tonly i j k)
                 (zip ii (zip jj kk)) ! e"
      using X1_nth [OF len e, of L poses tonly patches intrinsics] len e
      by (simp add: X1_def Gij_def Let_def)
  qed
  have "transform L poses patches intrinsics ii jj kk depth valid jacobian tonly =
     (if jacobian then
        (case collect (map centre X1) of Inl e \<Rightarrow> Inl e | Inr C \<Rightarrow>
           Inr (CoordsJac (proj X1 (map (item intrinsics) jj) depth)
                  (map (\<lambda>(X, Y, Z, H). if Z > 2 / 10 then 1 else 0) C)
                  (map2 (\<lambda>G. map (\<lambda>row. map uminus (lie_adjT L G row))) Gij
                     (map2 (\<lambda>K P. matmul (Jp K P) (Ja P)) (map (item intrinsics) jj) C),
                   map2 (\<lambda>K P. matmul (Jp K P) (Ja P)) (map (item intrinsics) jj) C,
                   map2 (\<lambda>G (K, P). matmul (Jp K P) (map (drop 3) (lie_matrix L G)))
                    Gij (zip (map (item intrinsics) jj) C))))
      else if valid then
        Inr (CoordsValid (proj X1 (map (item intrinsics) jj) depth)
               (map (map (map (\<lambda>(X, Y, Z, W). if Z > 2 / 10 then 1 else 0))) X1))
      else Inr (Coords (proj X1 (map (item intrinsics) jj) depth)))"
    unfolding transform_def g X1_def Gij_def Let_def using len
    by simp
  then show ?thesis
    unfolding X G by (simp only: Let_def)
qed

lemma proj_nth:
  assumes "e < length Xs" "e < length K"
  shows "proj Xs K depth ! e = map (map (\<lambda>P. project P (K ! e) depth)) (Xs ! e)"
  using assms
  by (auto simp: proj_def project_def Let_def mult.assoc split: prod.splits)

lemma proj_iproj_nth:
  assumes "e < length P" "e < length K" "r < length (P ! e)" "c < length (P ! e ! r)"
    and "K ! e = (fx, fy, cx, cy)" "P ! e ! r ! c = (x, y, d)" "fx \<noteq> 0" "fy \<noteq> 0"
  shows "proj (iproj P K) K False ! e ! r ! c = [x, y]"
  using assms by (simp add: proj_def iproj_def)

lemma length_all_points:
  "length jj = length ii \<Longrightarrow> length kk = length ii \<Longrightarrow>
   length (all_points L poses patches intrinsics tonly ii jj kk) = length ii"
  by (simp add: all_points_def)

lemma all_points_nth:
  "length jj = length ii \<Longrightarrow> length kk = length ii \<Longrightarrow> e < length ii \<Longrightarrow>
   all_points L poses patches intrinsics tonly ii jj kk ! e
     = edge_points L poses patches intrinsics tonly (ii ! e) (jj ! e) (kk ! e)"
  by (simp add: all_points_def)

lemma transform_plain:
  assumes "wf_edges poses patches intrinsics ii jj kk"
  shows "transform L poses patches intrinsics ii jj kk depth valid False tonly =
     (let X1 = all_points L poses patches intrinsics tonly ii jj kk;
          x1 = proj X1 (map (item intrinsics) jj) depth
      in if valid then Inr (CoordsValid x1 (map (map (map Zflag)) X1)) else Inr (Coords x1))"
proof -
  have "Zflag = (\<lambda>(X, Y, Z, W). if Z > 2 / 10 then 1 else 0)"
    by (auto simp: Zflag_def fun_eq_iff)
  then show ?thesis
    by (simp add: transform_unfold [OF assms] Let_def all_points_def)
qed

lemma proj_all_points_nth:
  assumes "wf_edges poses patches intrinsics ii jj kk" "e < length ii"
  shows "proj (all_points L poses patches intrinsics tonly ii jj kk)
              (map (item intrinsics) jj) depth ! e
         = map (map (reproject L (relative_pose L poses tonly (ii ! e) (jj ! e))
                       (item intrinsics (ii ! e)) (item intrinsics (jj ! e)) depth))
               (item patches (kk ! e))"
proof -
  have len: "length jj = length ii" "length kk = length ii"
    using assms by (simp_all add: wf_edges_def)
  show ?thesis
    using assms(2) len
    by (subst proj_nth)
       (simp_all add: length_all_points all_points_nth edge_points_def reproject_def comp_def)
qed

lemma collect_map_ok:
  "(\<And>x. x \<in> set xs \<Longrightarrow> f x = Inr (g x)) \<Longrightarrow> collect (map f xs) = Inr (map g xs)"
  by (induction xs) simp_all

lemma item_in_set: "in_range (length xs) i \<Longrightarrow> item xs i \<in> set xs"
  by (auto simp: in_range_def item_def wrap_def split: if_splits)

lemma centre_edge_points:
  assumes "wf_patches p patches" "0 < p" "in_range (length patches) k"
  shows "centre (edge_points L poses patches intrinsics tonly i j k)
           = Inr (centre_point L poses patches intrinsics tonly i j k)"
proof -
  have g: "item patches k \<in> set patches" using assms(3) by (rule item_in_set)
  then have l: "length (item patches k) = p" using assms(1) by (simp add: wf_patches_def)
  have "p div 2 < p" using assms(2) by simp
  then have "item patches k ! (p div 2) \<in> set (item patches k)" using l by simp
  then have "length (item patches k ! (p div 2)) = p"
    using assms(1) g by (auto simp: wf_patches_def)
  then show ?thesis
    using l \<open>p div 2 < p\<close>
    by (simp add: centre_def edge_points_def centre_point_def Let_def)
qed

lemma collect_centres:
  assumes "wf_edges poses patches intrinsics ii jj kk" "wf_patches p patches" "0 < p"
  shows "collect (map centre (all_points L poses patches intrinsics tonly ii jj kk))
         = Inr (all_centres L poses patches intrinsics tonly ii jj kk)"
proof -
  have "\<And>x. x \<in> set (zip ii (zip jj kk)) \<Longrightarrow>
          (centre \<circ> (\<lambda>(i, j, k). edge_points L poses patches intrinsics tonly i j k)) x
          = Inr ((\<lambda>(i, j, k). centre_point L poses patches intrinsics tonly i j k) x)"
  proof -
    fix x assume "x \<in> set (zip ii (zip jj kk))"
    then obtain i j k where x: "x = (i, j, k)" and "k \<in> set kk"
      by (metis in_set_zipE prod.exhaust)
    then have "in_range (length patches) k" using assms(1) by (simp add: wf_edges_def)
    then show "(centre \<circ> (\<lambda>(i, j, k). edge_points L poses patches intrinsics tonly i j k)) x
          = Inr ((\<lambda>(i, j, k). centre_point L poses patches intrinsics tonly i j k) x)"
      using centre_edge_points [OF assms(2,3)] x by simp
  qed
  then show ?thesis
    unfolding all_points_def all_centres_def map_map by (rule collect_map_ok)
qed

lemma transform_jac:
  assumes "wf_edges poses patches intrinsics ii jj kk" "wf_patches p patches" "0 < p"
  shows "transform L poses patches intrinsics ii jj kk depth valid True tonly =
     (let X1 = all_points L poses patches intrinsics tonly ii jj kk;
          C = all_centres L poses patches intrinsics tonly ii jj kk;
          Kj = map (item intrinsics) jj;
          Gij = map2 (relative_pose L poses tonly) ii jj;
          Jj = map2 (\<lambda>K P. matmul (Jp K P) (Ja P)) Kj C;
          Ji = map2 (\<lambda>G. map (\<lambda>row. map uminus (lie_adjT L G row))) Gij Jj;
          Jz = map2 (\<lambda>G (K, P). matmul (Jp K P) (map (drop 3) (lie_matrix L G)))
                 Gij (zip Kj C)
      in Inr (CoordsJac (proj X1 Kj depth) (map Zflag C) (Ji, Jj, Jz)))"
proof -
  have z: "Zflag = (\<lambda>(X, Y, Z, W). if Z > 2 / 10 then 1 else 0)"
    by (auto simp: Zflag_def fun_eq_iff)
  have c: "collect (map centre (map (\<lambda>(i, j, k). edge_points L poses patches intrinsics tonly i j k)
                 (zip ii (zip jj kk))))
         = Inr (all_centres L poses patches intrinsics tonly ii jj kk)"
    using collect_centres [OF assms] by (simp add: all_points_def)
  show ?thesis
    unfolding transform_unfold [OF assms(1)] Let_def c z all_points_def by simp
qed

lemmas index_simps = wf_edges_def in_range_def wrap_def item_def
lemmas se3_simps = SE3_def se3_mul_def se3_inv_def se3_act_def se3_matrix_def
  qrot_def qmul_def qconj_def cross_def vadd_def vscale_def

text \<open>
  The two scenarios of section 8 of the specification, on the modelled SE3 operations:
  unit intrinsics, a patch at pixel \<open>(0, 0)\<close> with depth 1, identity poses; then frame
  \<open>j\<close> moved by \<open>(0, 0, 1)\<close>.
\<close>

lemma spec_scenarios:
  "transform SE3 [((0, 0, 0), (0, 0, 0, 1)), ((0, 0, 0), (0, 0, 0, 1))] [[[(0, 0, 1)]]]
     [(1, 1, 0, 0), (1, 1, 0, 0)] [0] [1] [0] True True False False
     = Inr (CoordsValid [[[[0, 0, 1]]]] [[[1]]])"
  "transform SE3 [((0, 0, 0), (0, 0, 0, 1)), ((0, 0, 1), (0, 0, 0, 1))] [[[(0, 0, 1)]]]
     [(1, 1, 0, 0), (1, 1, 0, 0)] [0] [1] [0] True True False False
     = Inr (CoordsValid [[[[0, 0, 1 / 2]]]] [[[1]]])"
  by (simp_all add: transform_def getitem_def in_range_def wrap_def item_def iproj_def proj_def
      se3_simps)

text \<open>
  C1. For index arrays that satisfy the invariant of the visibility graph, \<open>transform\<close>
  with its default options returns one grid of pixels per edge, and the grid of edge
  \<open>e\<close> is obtained from patch \<open>kk[e]\<close> pixel by pixel as the specification states:
  \<open>X0 = inverse_project(patch, intrinsics[ii[e]])\<close>, the relative pose
  \<open>Gij = pose[jj[e]] \<cdot> pose[ii[e]]\<^sup>-\<^sup>1\<close>, \<open>X1 = Gij \<cdot> X0\<close>, and the projection of
  \<open>X1\<close> with \<open>intrinsics[jj[e]]\<close> (with the inverse depth appended when \<open>depth\<close> is set).
\<close>

theorem transform_pipeline:
  assumes "wf_edges poses patches intrinsics ii jj kk"
  shows "\<exists>x1. transform L poses patches intrinsics ii jj kk depth False False False
                 = Inr (Coords x1)
           \<and> length x1 = length ii
           \<and> (\<forall>e < length ii. x1 ! e =
                 map (map (\<lambda>patch.
                   (let X0 = inverse_project patch (item intrinsics (ii ! e));
                        Gij = lie_mul L (item poses (jj ! e)) (lie_inv L (item poses (ii ! e)));
                        X1 = lie_act L Gij X0
                    in project X1 (item intrinsics (jj ! e)) depth)))
                   (item patches (kk ! e)))"
proof -
  have len: "length jj = length ii" "length kk = length ii"
    using assms by (simp_all add: wf_edges_def)
  show ?thesis
    using len proj_all_points_nth [OF assms, of _ L False depth]
    by (simp add: transform_plain [OF assms] Let_def length_proj length_all_points
        reproject_def relative_pose_def)
qed

theorem transform_pipeline_witness:
  "wf_edges [((0, 0, 0), (0, 0, 0, 1)), ((0, 0, 1), (0, 0, 0, 1))] [[[(3, 4, 1)]]]
      [(1, 1, 0, 0), (2, 2, 1, 1)] [0] [1] [0] \<and>
   (\<exists>x1. transform SE3 [((0, 0, 0), (0, 0, 0, 1)), ((0, 0, 1), (0, 0, 0, 1))] [[[(3, 4, 1)]]]
            [(1, 1, 0, 0), (2, 2, 1, 1)] [0] [1] [0] True False False False = Inr (Coords x1)
      \<and> x1 ! 0 = [[[4, 5, 1 / 2]]])"
  using transform_pipeline [of "[((0, 0, 0), (0, 0, 0, 1)), ((0, 0, 1), (0, 0, 0, 1))]"
      "[[[(3, 4, 1)]]]" "[(1, 1, 0, 0), (2, 2, 1, 1)]" "[0]" "[1]" "[0]" SE3 True]
  by (auto simp: index_simps se3_simps inverse_project_def project_def)

lemma clamp_inverse_bounds: "0 < 1 / max Z (1 / 10 :: real) \<and> 1 / max Z (1 / 10) \<le> 10"
proof -
  have "(1 / 10 :: real) \<le> max Z (1 / 10)" by simp
  then show ?thesis
    by (auto simp: max_def field_simps)
qed

lemma take2_project:
  "take 2 (project (X, Y, Z, W) (fx, fy, cx, cy) depth)
     = [fx * (1 / max Z (1 / 10) * X) + cx, fy * (1 / max Z (1 / 10) * Y) + cy]"
  by (simp add: project_def Let_def)


lemma length_edge_points:
  "length (edge_points L poses patches intrinsics tonly i j k) = length (item patches k)"
  "r < length (item patches k) \<Longrightarrow>
   length (edge_points L poses patches intrinsics tonly i j k ! r) = length (item patches k ! r)"
  by (simp_all add: edge_points_def)


lemma clamped_pixel_project: "clamped_pixel K P (project P K depth)"
  using clamp_inverse_bounds
  by (cases P; cases K) (simp add: clamped_pixel_def take2_project Let_def)



lemma length_all_centres:
  "length jj = length ii \<Longrightarrow> length kk = length ii \<Longrightarrow>
   length (all_centres L poses patches intrinsics tonly ii jj kk) = length ii"
  by (simp add: all_centres_def)

lemma all_centres_nth:
  "length jj = length ii \<Longrightarrow> length kk = length ii \<Longrightarrow> e < length ii \<Longrightarrow>
   all_centres L poses patches intrinsics tonly ii jj kk ! e
     = centre_point L poses patches intrinsics tonly (ii ! e) (jj ! e) (kk ! e)"
  by (simp add: all_centres_def)







lemma centre_point_cong:
  assumes "wf_patches p patches" "wf_patches p patches'" "length patches' = length patches"
    and "\<forall>n < length patches. patches ! n ! (p div 2) ! (p div 2) = patches' ! n ! (p div 2) ! (p div 2)"
    and "in_range (length patches) k"
  shows "centre_point L poses patches intrinsics tonly i j k
         = centre_point L poses patches' intrinsics tonly i j k"
proof -
  have n: "nat (wrap (length patches) k) < length patches"
    using assms(5) by (auto simp: in_range_def)
  have "length (item patches k) = p"
    using assms(1) item_in_set [OF assms(5)] by (simp add: wf_patches_def)
  moreover have "length (item patches' k) = p"
    using assms(2) item_in_set [of patches' k] assms(3,5) by (simp add: wf_patches_def)
  moreover have "item patches k ! (p div 2) ! (p div 2) = item patches' k ! (p div 2) ! (p div 2)"
    using assms(3,4) n by (simp add: item_def)
  ultimately show ?thesis
    by (simp add: centre_point_def Let_def)
qed

lemma all_centres_cong:
  assumes "wf_edges poses patches intrinsics ii jj kk"
    and "wf_patches p patches" "wf_patches p patches'" "length patches' = length patches"
    and "\<forall>n < length patches. patches ! n ! (p div 2) ! (p div 2) = patches' ! n ! (p div 2) ! (p div 2)"
  shows "all_centres L poses patches intrinsics tonly ii jj kk
         = all_centres L poses patches' intrinsics tonly ii jj kk"
proof -
  have len: "length jj = length ii" "length kk = length ii"
    using assms(1) by (simp_all add: wf_edges_def)
  show ?thesis
  proof (rule nth_equalityI)
    show "length (all_centres L poses patches intrinsics tonly ii jj kk)
          = length (all_centres L poses patches' intrinsics tonly ii jj kk)"
      by (simp add: all_centres_def)
  next
    fix e assume "e < length (all_centres L poses patches intrinsics tonly ii jj kk)"
    then have e: "e < length ii" using len by (simp add: all_centres_def)
    then have "kk ! e \<in> set kk" using len by simp
    then have "in_range (length patches) (kk ! e)"
      using assms(1) by (simp add: wf_edges_def)
    then show "all_centres L poses patches intrinsics tonly ii jj kk ! e
          = all_centres L poses patches' intrinsics tonly ii jj kk ! e"
      using centre_point_cong [OF assms(2-5)] e len by (simp add: all_centres_nth)
  qed
qed

lemma wf_edges_patches_cong:
  "length patches' = length patches \<Longrightarrow>
   wf_edges poses patches intrinsics ii jj kk \<Longrightarrow> wf_edges poses patches' intrinsics ii jj kk"
  by (simp add: wf_edges_def)

text \<open>
  C10. With \<open>jacobian=True\<close> the validity mask and the three Jacobians depend on the patch
  buffer only through the centre pixel \<open>(p//2, p//2)\<close> of every patch: two buffers of
  \<open>p \<times> p\<close> patches that agree there give the same mask (one flag per edge) and the same
  \<open>(Ji, Jj, Jz)\<close>. The returned coordinates still hold a pixel for each of the
  \<open>p \<times> p\<close> positions of an edge, and with \<open>valid=True\<close> the mask holds a flag for each
  of them, the flag of that position's own transformed point.
\<close>

theorem jacobian_centre_only:
  assumes "wf_edges poses patches intrinsics ii jj kk"
    and "wf_patches p patches" "wf_patches p patches'" "length patches' = length patches"
    and "0 < p"
    and "\<forall>n < length patches.
           patches ! n ! (p div 2) ! (p div 2) = patches' ! n ! (p div 2) ! (p div 2)"
  shows "(\<exists>x1 x1' m J.
            transform L poses patches intrinsics ii jj kk depth valid True tonly
              = Inr (CoordsJac x1 m J)
          \<and> transform L poses patches' intrinsics ii jj kk depth valid True tonly
              = Inr (CoordsJac x1' m J)
          \<and> length m = length ii
          \<and> (\<forall>e < length ii. length (x1 ! e) = p \<and> (\<forall>r < p. length (x1 ! e ! r) = p)))
       \<and> (\<exists>x1 mv.
            transform L poses patches intrinsics ii jj kk depth True False tonly
              = Inr (CoordsValid x1 mv)
          \<and> (\<forall>e < length ii. length (mv ! e) = p
                \<and> (\<forall>r < p. length (mv ! e ! r) = p
                      \<and> (\<forall>c < p. mv ! e ! r ! c =
                           Zflag (edge_points L poses patches intrinsics tonly
                                    (ii ! e) (jj ! e) (kk ! e) ! r ! c)))))"
proof -
  have len: "length jj = length ii" "length kk = length ii"
    using assms(1) by (simp_all add: wf_edges_def)
  have w': "wf_edges poses patches' intrinsics ii jj kk"
    using assms(1,4) by (rule wf_edges_patches_cong [rotated])
  have C: "all_centres L poses patches' intrinsics tonly ii jj kk
           = all_centres L poses patches intrinsics tonly ii jj kk"
    using all_centres_cong [OF assms(1-4,6)] by simp
  have shape: "length (item patches (kk ! e)) = p
      \<and> (\<forall>r < p. length (item patches (kk ! e) ! r) = p)" if "e < length ii" for e
  proof -
    have "kk ! e \<in> set kk" using that len by simp
    then have "item patches (kk ! e) \<in> set patches"
      using assms(1) by (intro item_in_set) (simp add: wf_edges_def)
    then show ?thesis using assms(2) by (simp add: wf_patches_def)
  qed
  have xs: "length (proj (all_points L poses patches intrinsics tonly ii jj kk)
                      (map (item intrinsics) jj) depth ! e) = p
     \<and> (\<forall>r < p. length (proj (all_points L poses patches intrinsics tonly ii jj kk)
                      (map (item intrinsics) jj) depth ! e ! r) = p)" if "e < length ii" for e
    using shape [OF that] by (simp add: proj_all_points_nth [OF assms(1) that])
  have ms: "length (map (map (map Zflag)) (all_points L poses patches intrinsics tonly ii jj kk) ! e) = p
     \<and> (\<forall>r < p. length (map (map (map Zflag))
                           (all_points L poses patches intrinsics tonly ii jj kk) ! e ! r) = p
           \<and> (\<forall>c < p. map (map (map Zflag))
                           (all_points L poses patches intrinsics tonly ii jj kk) ! e ! r ! c
                 = Zflag (edge_points L poses patches intrinsics tonly
                                    (ii ! e) (jj ! e) (kk ! e) ! r ! c)))"
    if "e < length ii" for e
    using shape [OF that] that len
    by (simp add: length_all_points all_points_nth length_edge_points)
  have A: "\<exists>x1 x1' m J.
            transform L poses patches intrinsics ii jj kk depth valid True tonly
              = Inr (CoordsJac x1 m J)
          \<and> transform L poses patches' intrinsics ii jj kk depth valid True tonly
              = Inr (CoordsJac x1' m J)
          \<and> length m = length ii
          \<and> (\<forall>e < length ii. length (x1 ! e) = p \<and> (\<forall>r < p. length (x1 ! e ! r) = p))"
    unfolding transform_jac [OF assms(1,2,5)] transform_jac [OF w' assms(3,5)] Let_def C
    using xs len by (simp add: length_all_centres)
  have B: "\<exists>x1 mv.
            transform L poses patches intrinsics ii jj kk depth True False tonly
              = Inr (CoordsValid x1 mv)
          \<and> (\<forall>e < length ii. length (mv ! e) = p
                \<and> (\<forall>r < p. length (mv ! e ! r) = p
                      \<and> (\<forall>c < p. mv ! e ! r ! c =
                           Zflag (edge_points L poses patches intrinsics tonly
                                    (ii ! e) (jj ! e) (kk ! e) ! r ! c))))"
    unfolding transform_plain [OF assms(1)] Let_def
    using ms by simp
  show ?thesis using A B by blast
qed

theorem jacobian_centre_only_witness:
  "wf_edges [((0, 0, 0), (0, 0, 0, 1))] [[[(0, 0, 1), (1, 0, 1)], [(0, 1, 1), (5, 6, 1)]]]
      [(1, 1, 0, 0)] [0] [0] [0] \<and>
   wf_patches 2 [[[(0, 0, 1), (1, 0, 1)], [(0, 1, 1), (5, 6, 1)]]] \<and>
   wf_patches 2 [[[(9, 9, 2), (8, 8, 3)], [(7, 7, 4), (5, 6, 1)]]] \<and>
   (\<exists>x1 x1' m J.
      transform SE3 [((0, 0, 0), (0, 0, 0, 1))]
        [[[(0, 0, 1), (1, 0, 1)], [(0, 1, 1), (5, 6, 1)]]]
        [(1, 1, 0, 0)] [0] [0] [0] False False True False = Inr (CoordsJac x1 m J)
    \<and> transform SE3 [((0, 0, 0), (0, 0, 0, 1))]
        [[[(9, 9, 2), (8, 8, 3)], [(7, 7, 4), (5, 6, 1)]]]
        [(1, 1, 0, 0)] [0] [0] [0] False False True False = Inr (CoordsJac x1' m J)
    \<and> length m = 1 \<and> length (x1 ! 0) = 2)"
proof -
  have w: "wf_edges [((0, 0, 0), (0, 0, 0, 1))]
      [[[(0, 0, 1), (1, 0, 1)], [(0, 1, 1), (5, 6, 1)]]] [(1, 1, 0, 0)] [0] [0] [0]"
    by (simp add: index_simps)
  have p: "wf_patches 2 [[[(0, 0, 1), (1, 0, 1)], [(0, 1, 1), (5, 6, 1)]]]"
    "wf_patches 2 [[[(9, 9, 2), (8, 8, 3)], [(7, 7, 4), (5, 6, 1 :: real)]]]"
    by (simp_all add: wf_patches_def)
  have c: "\<forall>n < length [[[(0, 0, 1), (1, 0, 1)], [(0, 1, 1), (5, 6, 1 :: real)]]].
       [[[(0 :: real, 0 :: real, 1 :: real), (1, 0, 1)], [(0, 1, 1), (5, 6, 1)]]] ! n ! (2 div 2) ! (2 div 2)
       = [[[(9, 9, 2), (8, 8, 3)], [(7, 7, 4), (5, 6, 1)]]] ! n ! (2 div 2) ! (2 div 2)"
    by simp
  show ?thesis
    using w p jacobian_centre_only [OF w p _ _ c, of SE3 False False False]
    by auto
qed

lemma Jp_flat:
  "\<bar>Z\<bar> \<le> 2 / 10 \<Longrightarrow> Jp K (X, Y, Z, W) = [[0, 0, 0, 0], [0, 0, 0, 0]]"
  by (cases K) (simp add: Jp_def)

lemma Jp_far:
  "\<bar>Z\<bar> > 2 / 10 \<Longrightarrow> Jp (fx, fy, cx, cy) (X, Y, Z, W)
     = [[fx * (1 / Z), 0, - fx * X * (1 / Z) * (1 / Z), 0],
        [0, fy * (1 / Z), - fy * Y * (1 / Z) * (1 / Z), 0]]"
  by (simp add: Jp_def)

lemma deriv_inverse_depth:
  fixes a b Z :: real
  assumes "Z \<noteq> 0"
  shows "DERIV (\<lambda>t. a * (1 / t) * b + c) Z :> - a * b * (1 / Z) * (1 / Z)"
  using assms
  by (auto intro!: derivative_eq_intros simp: field_simps power2_eq_square)

lemma pinhole_nth:
  "pinhole (fx, fy, cx, cy) (X, Y, Z, W) ! 0 = fx * (1 / Z) * X + cx"
  "pinhole (fx, fy, cx, cy) (X, Y, Z, W) ! 1 = fy * (1 / Z) * Y + cy"
  by (simp_all add: pinhole_def)

lemma deriv_linear:
  fixes a d c x :: real
  shows "DERIV (\<lambda>t. a * d * t + c) x :> a * d"
  by (auto intro!: derivative_eq_intros)

lemma Jp_pinhole:
  assumes "\<bar>Z\<bar> > 2 / 10"
  shows "is_jacobian (pinhole K) (X, Y, Z, W) (Jp K (X, Y, Z, W))"
proof -
  obtain fx fy cx cy where K: "K = (fx, fy, cx, cy)" by (cases K) auto
  have Z: "Z \<noteq> 0" using assms by auto
  have x: "partials (\<lambda>Q. pinhole K Q ! 0) (X, Y, Z, W)
             [fx * (1 / Z), 0, - fx * X * (1 / Z) * (1 / Z), 0]"
    unfolding partials_def K pinhole_nth prod.case
  proof (intro conjI)
    show "DERIV (\<lambda>t. fx * (1 / Z) * t + cx) X
            :> [fx * (1 / Z), 0, - fx * X * (1 / Z) * (1 / Z), 0] ! 0"
      using deriv_linear [of fx "1 / Z" cx X] by simp
    show "DERIV (\<lambda>t. fx * (1 / t) * X + cx) Z
            :> [fx * (1 / Z), 0, - fx * X * (1 / Z) * (1 / Z), 0] ! 2"
      using deriv_inverse_depth [OF Z, of fx X cx] by simp
  qed simp_all
  have y: "partials (\<lambda>Q. pinhole K Q ! 1) (X, Y, Z, W)
             [0, fy * (1 / Z), - fy * Y * (1 / Z) * (1 / Z), 0]"
    unfolding partials_def K pinhole_nth prod.case
  proof (intro conjI)
    show "DERIV (\<lambda>t. fy * (1 / Z) * t + cy) Y
            :> [0, fy * (1 / Z), - fy * Y * (1 / Z) * (1 / Z), 0] ! 1"
      using deriv_linear [of fy "1 / Z" cy Y] by simp
    show "DERIV (\<lambda>t. fy * (1 / t) * Y + cy) Z
            :> [0, fy * (1 / Z), - fy * Y * (1 / Z) * (1 / Z), 0] ! 2"
      using deriv_inverse_depth [OF Z, of fy Y cy] by simp
  qed simp_all
  show ?thesis
    using x y assms by (simp add: is_jacobian_def K Jp_far)
qed

text \<open>Where the clamp is inactive the source's \<open>proj\<close> is the pinhole map.\<close>

lemma proj1_pinhole: "1 / 10 \<le> Z \<Longrightarrow> proj1 K (X, Y, Z, W) = pinhole K (X, Y, Z, W)"
  by (cases K) (simp add: proj1_def proj_def pinhole_def max_def)

lemma deriv_near:
  fixes f g :: "real \<Rightarrow> real"
  assumes "DERIV g Z :> D" "1 / 10 < Z" "\<And>t. 1 / 10 < t \<Longrightarrow> f t = g t"
  shows "DERIV f Z :> D"
proof -
  have "eventually (\<lambda>t. f t = g t) (nhds Z)"
    unfolding eventually_nhds
    using assms(2,3) by (intro exI [of _ "{1 / 10 <..}"]) auto
  then show ?thesis
    using assms(1) DERIV_cong_ev [of Z Z f g D D] by simp
qed

lemma Jp_proj:
  assumes "Z > 2 / 10"
  shows "is_jacobian (proj1 K) (X, Y, Z, W) (Jp K (X, Y, Z, W))"
proof -
  have Z: "\<bar>Z\<bar> > 2 / 10" "1 / 10 < Z" "1 / 10 \<le> Z" using assms by auto
  have J: "is_jacobian (pinhole K) (X, Y, Z, W) (Jp K (X, Y, Z, W))"
    using Z(1) by (rule Jp_pinhole)
  have c: "(\<lambda>t. proj1 K (t, Y, Z, W) ! n) = (\<lambda>t. pinhole K (t, Y, Z, W) ! n)"
    "(\<lambda>t. proj1 K (X, t, Z, W) ! n) = (\<lambda>t. pinhole K (X, t, Z, W) ! n)"
    "(\<lambda>t. proj1 K (X, Y, Z, t) ! n) = (\<lambda>t. pinhole K (X, Y, Z, t) ! n)" for n
    using Z(3) by (simp_all add: proj1_pinhole)
  have z: "DERIV (\<lambda>t. proj1 K (X, Y, t, W) ! n) Z :> D"
    if "DERIV (\<lambda>t. pinhole K (X, Y, t, W) ! n) Z :> D" for n D
    using that Z(2) by (rule deriv_near) (simp add: proj1_pinhole)
  show ?thesis
    using J z by (simp add: is_jacobian_def partials_def c)
qed

lemma wf_edges_self:
  "wf_edges poses patches intrinsics ii jj kk \<Longrightarrow> wf_edges poses patches intrinsics ii ii kk"
  by (simp add: wf_edges_def)

lemma reprojected_shape:
  assumes "wf_edges poses patches intrinsics ii jj kk"
  shows "length (proj (all_points L poses patches intrinsics tonly ii jj kk)
                   (map (item intrinsics) jj) depth) = length ii"
    and "e < length ii \<Longrightarrow>
         length (proj (all_points L poses patches intrinsics tonly ii jj kk)
                   (map (item intrinsics) jj) depth ! e) = length (item patches (kk ! e))"
    and "e < length ii \<Longrightarrow> r < length (item patches (kk ! e)) \<Longrightarrow>
         length (proj (all_points L poses patches intrinsics tonly ii jj kk)
                   (map (item intrinsics) jj) depth ! e ! r) = length (item patches (kk ! e) ! r)"
    and "e < length ii \<Longrightarrow> r < length (item patches (kk ! e)) \<Longrightarrow>
         c < length (item patches (kk ! e) ! r) \<Longrightarrow>
         proj (all_points L poses patches intrinsics tonly ii jj kk)
                   (map (item intrinsics) jj) depth ! e ! r ! c
         = reproject L (relative_pose L poses tonly (ii ! e) (jj ! e))
             (item intrinsics (ii ! e)) (item intrinsics (jj ! e)) depth
             (item patches (kk ! e) ! r ! c)"
proof -
  have len: "length jj = length ii" "length kk = length ii"
    using assms by (simp_all add: wf_edges_def)
  show "length (proj (all_points L poses patches intrinsics tonly ii jj kk)
                   (map (item intrinsics) jj) depth) = length ii"
    using len by (simp add: length_proj length_all_points)
  show "e < length ii \<Longrightarrow>
         length (proj (all_points L poses patches intrinsics tonly ii jj kk)
                   (map (item intrinsics) jj) depth ! e) = length (item patches (kk ! e))"
    by (simp add: proj_all_points_nth [OF assms])
  show "e < length ii \<Longrightarrow> r < length (item patches (kk ! e)) \<Longrightarrow>
         length (proj (all_points L poses patches intrinsics tonly ii jj kk)
                   (map (item intrinsics) jj) depth ! e ! r) = length (item patches (kk ! e) ! r)"
    by (simp add: proj_all_points_nth [OF assms])
  show "e < length ii \<Longrightarrow> r < length (item patches (kk ! e)) \<Longrightarrow>
         c < length (item patches (kk ! e) ! r) \<Longrightarrow>
         proj (all_points L poses patches intrinsics tonly ii jj kk)
                   (map (item intrinsics) jj) depth ! e ! r ! c
         = reproject L (relative_pose L poses tonly (ii ! e) (jj ! e))
             (item intrinsics (ii ! e)) (item intrinsics (jj ! e)) depth
             (item patches (kk ! e) ! r ! c)"
    by (simp add: proj_all_points_nth [OF assms])
qed

text \<open>The per-pixel flow magnitude of two coordinate tensors of one shape.\<close>

lemma flow_nth:
  fixes A B :: "real list list list list"
  assumes "length A = n" "length B = n" "e < n"
    and "length (A ! e) = h" "length (B ! e) = h" "r < h"
    and "length (A ! e ! r) = w" "length (B ! e ! r) = w" "c < w"
  shows "map (map (map (\<lambda>v. sqrt (sum_list (map (\<lambda>a. a * a) v)))))
           (map2 (map2 (map2 (map2 (-)))) A B) ! e ! r ! c
         = disp_norm (A ! e ! r ! c) (B ! e ! r ! c)"
  using assms by (simp add: disp_norm_def)

lemma flow_shape:
  fixes A B :: "real list list list list"
  assumes "length A = n" "length B = n"
  shows "length (map (map (map (\<lambda>v. sqrt (sum_list (map (\<lambda>a. a * a) v)))))
           (map2 (map2 (map2 (map2 (-)))) A B)) = n"
    and "e < n \<Longrightarrow> length (A ! e) = h \<Longrightarrow> length (B ! e) = h \<Longrightarrow>
         length (map (map (map (\<lambda>v. sqrt (sum_list (map (\<lambda>a. a * a) v)))))
           (map2 (map2 (map2 (map2 (-)))) A B) ! e) = h"
    and "e < n \<Longrightarrow> length (A ! e) = h \<Longrightarrow> length (B ! e) = h \<Longrightarrow> r < h \<Longrightarrow>
         length (A ! e ! r) = w \<Longrightarrow> length (B ! e ! r) = w \<Longrightarrow>
         length (map (map (map (\<lambda>v. sqrt (sum_list (map (\<lambda>a. a * a) v)))))
           (map2 (map2 (map2 (map2 (-)))) A B) ! e ! r) = w"
  using assms by simp_all

text \<open>
  C8. For well-formed index arrays \<open>flow_mag\<close> returns, for every pixel of every edge,
  \<open>beta \<cdot> |c1 - c0| + (1 - beta) \<cdot> |c2 - c0|\<close>, where \<open>c0\<close> is the reprojection into
  the observing frame itself (\<open>jj = ii\<close>), \<open>c1\<close> the reprojection through the relative
  transform and \<open>c2\<close> the reprojection through the relative transform with its rotation
  reset. With \<open>beta = 1\<close> this is the full-motion magnitude \<open>|c1 - c0|\<close>, with
  \<open>beta = 0\<close> the translation-only magnitude \<open>|c2 - c0|\<close>.
\<close>

theorem flow_mag_blend:
  assumes "wf_edges poses patches intrinsics ii jj kk"
  shows "\<exists>F. flow_mag L poses patches intrinsics ii jj kk beta = Inr F
           \<and> length F = length ii
           \<and> (\<forall>e < length ii. \<forall>r < length (item patches (kk ! e)).
                \<forall>c < length (item patches (kk ! e) ! r).
                (let px = item patches (kk ! e) ! r ! c;
                     Ki = item intrinsics (ii ! e);
                     Kj = item intrinsics (jj ! e);
                     c0 = reproject L (relative_pose L poses False (ii ! e) (ii ! e)) Ki Ki False px;
                     c1 = reproject L (relative_pose L poses False (ii ! e) (jj ! e)) Ki Kj False px;
                     c2 = reproject L (relative_pose L poses True (ii ! e) (jj ! e)) Ki Kj False px
                 in F ! e ! r ! c = beta * disp_norm c1 c0 + (1 - beta) * disp_norm c2 c0
                    \<and> (beta = 1 \<longrightarrow> F ! e ! r ! c = disp_norm c1 c0)
                    \<and> (beta = 0 \<longrightarrow> F ! e ! r ! c = disp_norm c2 c0)))"
proof -
  have w0: "wf_edges poses patches intrinsics ii ii kk"
    using assms by (rule wf_edges_self)
  define x0 where "x0 = proj (all_points L poses patches intrinsics False ii ii kk)
                          (map (item intrinsics) ii) False"
  define x1 where "x1 = proj (all_points L poses patches intrinsics False ii jj kk)
                          (map (item intrinsics) jj) False"
  define x2 where "x2 = proj (all_points L poses patches intrinsics True ii jj kk)
                          (map (item intrinsics) jj) False"
  define nrm :: "real list list list list \<Rightarrow> real list list list"
    where "nrm = map (map (map (\<lambda>v. sqrt (sum_list (map (\<lambda>a. a * a) v)))))"
  define F1 where "F1 = nrm (map2 (map2 (map2 (map2 (-)))) x1 x0)"
  define F2 where "F2 = nrm (map2 (map2 (map2 (map2 (-)))) x2 x0)"
  define F where "F = map2 (map2 (map2 (\<lambda>a b. beta * a + (1 - beta) * b))) F1 F2"
  have run: "flow_mag L poses patches intrinsics ii jj kk beta = Inr F"
    unfolding flow_mag_def transform_plain [OF assms] transform_plain [OF w0] Let_def
    by (simp add: F_def F1_def F2_def nrm_def x0_def x1_def x2_def)
  note s0 = reprojected_shape [OF w0, where L = L and tonly = False and depth = False, folded x0_def]
  note s1 = reprojected_shape [OF assms, where L = L and tonly = False and depth = False, folded x1_def]
  note s2 = reprojected_shape [OF assms, where L = L and tonly = True and depth = False, folded x2_def]
  have l1: "length F1 = length ii" and l2: "length F2 = length ii"
    unfolding F1_def F2_def nrm_def
    using s0(1) s1(1) s2(1) by (simp_all add: flow_shape(1))
  have lF: "length F = length ii"
    using l1 l2 by (simp add: F_def)
  have px: "F ! e ! r ! c
      = beta * disp_norm (x1 ! e ! r ! c) (x0 ! e ! r ! c)
        + (1 - beta) * disp_norm (x2 ! e ! r ! c) (x0 ! e ! r ! c)"
    if e: "e < length ii" and r: "r < length (item patches (kk ! e))"
      and c: "c < length (item patches (kk ! e) ! r)" for e r c
  proof -
    have h1: "length (F1 ! e) = length (item patches (kk ! e))"
      unfolding F1_def nrm_def
      by (rule flow_shape(2) [OF s1(1) s0(1) e s1(2) [OF e] s0(2) [OF e]])
    have h2: "length (F2 ! e) = length (item patches (kk ! e))"
      unfolding F2_def nrm_def
      by (rule flow_shape(2) [OF s2(1) s0(1) e s2(2) [OF e] s0(2) [OF e]])
    have w1: "length (F1 ! e ! r) = length (item patches (kk ! e) ! r)"
      unfolding F1_def nrm_def
      by (rule flow_shape(3) [OF s1(1) s0(1) e s1(2) [OF e] s0(2) [OF e] r
            s1(3) [OF e r] s0(3) [OF e r]])
    have w2: "length (F2 ! e ! r) = length (item patches (kk ! e) ! r)"
      unfolding F2_def nrm_def
      by (rule flow_shape(3) [OF s2(1) s0(1) e s2(2) [OF e] s0(2) [OF e] r
            s2(3) [OF e r] s0(3) [OF e r]])
    have v1: "F1 ! e ! r ! c = disp_norm (x1 ! e ! r ! c) (x0 ! e ! r ! c)"
      unfolding F1_def nrm_def
      by (rule flow_nth [OF s1(1) s0(1) e s1(2) [OF e] s0(2) [OF e] r
            s1(3) [OF e r] s0(3) [OF e r] c])
    have v2: "F2 ! e ! r ! c = disp_norm (x2 ! e ! r ! c) (x0 ! e ! r ! c)"
      unfolding F2_def nrm_def
      by (rule flow_nth [OF s2(1) s0(1) e s2(2) [OF e] s0(2) [OF e] r
            s2(3) [OF e r] s0(3) [OF e r] c])
    show ?thesis
      using e r c l1 l2 h1 h2 w1 w2 by (simp add: F_def v1 v2)
  qed
  have "\<forall>e < length ii. \<forall>r < length (item patches (kk ! e)).
                \<forall>c < length (item patches (kk ! e) ! r).
                (let px = item patches (kk ! e) ! r ! c;
                     Ki = item intrinsics (ii ! e);
                     Kj = item intrinsics (jj ! e);
                     c0 = reproject L (relative_pose L poses False (ii ! e) (ii ! e)) Ki Ki False px;
                     c1 = reproject L (relative_pose L poses False (ii ! e) (jj ! e)) Ki Kj False px;
                     c2 = reproject L (relative_pose L poses True (ii ! e) (jj ! e)) Ki Kj False px
                 in F ! e ! r ! c = beta * disp_norm c1 c0 + (1 - beta) * disp_norm c2 c0
                    \<and> (beta = 1 \<longrightarrow> F ! e ! r ! c = disp_norm c1 c0)
                    \<and> (beta = 0 \<longrightarrow> F ! e ! r ! c = disp_norm c2 c0))"
    unfolding Let_def
    using px s0(4) s1(4) s2(4) by simp
  then show ?thesis using run lF by blast
qed

theorem flow_mag_blend_witness:
  "wf_edges [((0, 0, 0), (0, 0, 0, 1)), ((0, 0, 1), (0, 0, 1, 0))] [[[(3, 4, 1)]]]
      [(1, 1, 0, 0), (1, 1, 0, 0)] [0] [1] [0] \<and>
   (\<exists>F. flow_mag SE3 [((0, 0, 0), (0, 0, 0, 1)), ((0, 0, 1), (0, 0, 1, 0))] [[[(3, 4, 1)]]]
          [(1, 1, 0, 0), (1, 1, 0, 0)] [0] [1] [0] 1 = Inr F \<and> F ! 0 ! 0 ! 0 = 15 / 2) \<and>
   (\<exists>F. flow_mag SE3 [((0, 0, 0), (0, 0, 0, 1)), ((0, 0, 1), (0, 0, 1, 0))] [[[(3, 4, 1)]]]
          [(1, 1, 0, 0), (1, 1, 0, 0)] [0] [1] [0] 0 = Inr F \<and> F ! 0 ! 0 ! 0 = 5 / 2) \<and>
   (\<exists>F. flow_mag SE3 [((0, 0, 0), (0, 0, 0, 1)), ((0, 0, 1), (0, 0, 1, 0))] [[[(3, 4, 1)]]]
          [(1, 1, 0, 0), (1, 1, 0, 0)] [0] [1] [0] (3 / 10) = Inr F \<and> F ! 0 ! 0 ! 0 = 4)"
proof -
  have w: "wf_edges [((0, 0, 0), (0, 0, 0, 1)), ((0, 0, 1), (0, 0, 1, 0))] [[[(3, 4, 1)]]]
      [(1, 1, 0, 0), (1, 1, 0, 0)] [0] [1] [0]"
    by (simp add: index_simps)
  have s1: "sqrt (225 / 4) = 15 / 2"
    by (rule real_sqrt_unique) (simp_all add: power2_eq_square)
  have s2: "sqrt (25 / 4) = 5 / 2"
    by (rule real_sqrt_unique) (simp_all add: power2_eq_square)
  have c0: "reproject SE3 (relative_pose SE3 [((0, 0, 0), (0, 0, 0, 1)), ((0, 0, 1), (0, 0, 1, 0))]
                False 0 0) (1, 1, 0, 0) (1, 1, 0, 0) False (3, 4, 1) = [3, 4]"
    by (simp add: reproject_def relative_pose_def item_def wrap_def inverse_project_def
        project_def se3_simps)
  have c1: "reproject SE3 (relative_pose SE3 [((0, 0, 0), (0, 0, 0, 1)), ((0, 0, 1), (0, 0, 1, 0))]
                False 0 1) (1, 1, 0, 0) (1, 1, 0, 0) False (3, 4, 1) = [- (3 / 2), - 2]"
    by (simp add: reproject_def relative_pose_def item_def wrap_def inverse_project_def
        project_def se3_simps)
  have c2: "reproject SE3 (relative_pose SE3 [((0, 0, 0), (0, 0, 0, 1)), ((0, 0, 1), (0, 0, 1, 0))]
                True 0 1) (1, 1, 0, 0) (1, 1, 0, 0) False (3, 4, 1) = [3 / 2, 2]"
    by (simp add: reproject_def relative_pose_def item_def wrap_def inverse_project_def
        project_def se3_simps)
  have d1: "disp_norm [- (3 / 2), - 2] [3, 4] = 15 / 2"
    using s1 by (simp add: disp_norm_def)
  have d2: "disp_norm [3 / 2, 2] [3, 4] = 5 / 2"
    using s2 by (simp add: disp_norm_def)
  show ?thesis
    using w flow_mag_blend [OF w, of SE3 1] flow_mag_blend [OF w, of SE3 0]
      flow_mag_blend [OF w, of SE3 "3 / 10"]
    by (auto simp: item_def wrap_def c0 [simplified item_def wrap_def]
        c1 [simplified item_def wrap_def] c2 [simplified item_def wrap_def] d1 d2)
qed

lemma iproj_disps_nth:
  assumes "e < length D" "e < length K" "r < length (D ! e)" "c < length (D ! e ! r)"
  shows "iproj_disps D K ! e ! r ! c = source_point (K ! e) r c (D ! e ! r ! c)"
    and "length (iproj_disps D K ! e) = length (D ! e)"
    and "length (iproj_disps D K ! e ! r) = length (D ! e ! r)"
  using assms by (auto simp: iproj_disps_def source_point_def split: prod.splits)

lemma length_iproj_disps: "length (iproj_disps D K) = min (length D) (length K)"
  by (simp add: iproj_disps_def)

lemma dense_unfold:
  assumes "wf_dense poses depths intrinsics ii jj"
  shows "projective_transform L poses depths intrinsics ii jj =
     (let X0 = iproj_disps (map (item depths) ii) (map (item intrinsics) ii);
          Gij = map2 (dense_pose L poses) ii jj;
          X1 = map2 (\<lambda>G. map (map (lie_act L G))) Gij X0
      in Inr (proj X1 (map (item intrinsics) jj) False,
              map2 (map2 (map2 (\<lambda>(X1, Y1, Z1, W1) (X0, Y0, Z0, W0).
                    [if Z1 > MIN_DEPTH \<and> Z0 > MIN_DEPTH then 1 else 0]))) X1 X0))"
proof -
  have len: "length jj = length ii"
    using assms by (simp add: wf_dense_def)
  have g: "gather depths ii = Inr (map (item depths) ii)"
    "gather intrinsics ii = Inr (map (item intrinsics) ii)"
    "gather intrinsics jj = Inr (map (item intrinsics) jj)"
    "gather poses ii = Inr (map (item poses) ii)"
    "gather poses jj = Inr (map (item poses) jj)"
    using assms by (simp_all add: wf_dense_def gather_ok)
  have G: "map2 (\<lambda>G (i, j). if i = j then ((- (1 / 10), 0, 0), (0, 0, 0, 1)) else G)
             (map2 (\<lambda>gj gi. lie_mul L gj (lie_inv L gi)) (map (item poses) jj) (map (item poses) ii))
             (zip ii jj)
           = map2 (dense_pose L poses) ii jj"
    using len by (intro nth_equalityI) (auto simp: dense_pose_def)
  show ?thesis
    unfolding projective_transform_def g Let_def sum.case G
    using len by simp
qed

lemma dense_result:
  assumes "wf_dense poses depths intrinsics ii jj"
  shows "\<exists>x1 valid. projective_transform L poses depths intrinsics ii jj = Inr (x1, valid)
           \<and> length x1 = length ii \<and> length valid = length ii
           \<and> (\<forall>e < length ii. \<forall>r < length (item depths (ii ! e)).
                \<forall>c < length (item depths (ii ! e) ! r).
                  x1 ! e ! r ! c
                    = project (dense_point L poses depths intrinsics (ii ! e) (jj ! e) r c)
                        (item intrinsics (jj ! e)) False
                  \<and> valid ! e ! r ! c
                    = [Zflag (dense_point L poses depths intrinsics (ii ! e) (jj ! e) r c)])"
proof -
  have len: "length jj = length ii"
    using assms by (simp add: wf_dense_def)
  define X0 where "X0 = iproj_disps (map (item depths) ii) (map (item intrinsics) ii)"
  define X1 where "X1 = map2 (\<lambda>G. map (map (lie_act L G))) (map2 (dense_pose L poses) ii jj) X0"
  define x1 where "x1 = proj X1 (map (item intrinsics) jj) False"
  define valid where "valid = map2 (map2 (map2 (\<lambda>(X1, Y1, Z1, W1) (X0, Y0, Z0, W0).
                    [if Z1 > MIN_DEPTH \<and> Z0 > MIN_DEPTH then (1 :: real) else 0]))) X1 X0"
  have run: "projective_transform L poses depths intrinsics ii jj = Inr (x1, valid)"
    by (simp add: dense_unfold [OF assms] Let_def X0_def X1_def x1_def valid_def)
  have l0: "length X0 = length ii"
    by (simp add: X0_def length_iproj_disps)
  have l1: "length X1 = length ii"
    using len l0 by (simp add: X1_def)
  have lx: "length x1 = length ii"
    using len l1 by (simp add: x1_def length_proj)
  have lv: "length valid = length ii"
    using l0 l1 by (simp add: valid_def)
  have pix: "x1 ! e ! r ! c
                    = project (dense_point L poses depths intrinsics (ii ! e) (jj ! e) r c)
                        (item intrinsics (jj ! e)) False
                  \<and> valid ! e ! r ! c
                    = [Zflag (dense_point L poses depths intrinsics (ii ! e) (jj ! e) r c)]"
    if e: "e < length ii" and r: "r < length (item depths (ii ! e))"
      and c: "c < length (item depths (ii ! e) ! r)" for e r c
  proof -
    have s: "X0 ! e ! r ! c
        = source_point (item intrinsics (ii ! e)) r c (item depths (ii ! e) ! r ! c)"
      "length (X0 ! e) = length (item depths (ii ! e))"
      "length (X0 ! e ! r) = length (item depths (ii ! e) ! r)"
      unfolding X0_def using iproj_disps_nth [of e "map (item depths) ii"
          "map (item intrinsics) ii" r c] e r c
      by simp_all
    have e1: "X1 ! e = map (map (lie_act L (dense_pose L poses (ii ! e) (jj ! e)))) (X0 ! e)"
      using e len l0 by (simp add: X1_def)
    have p1: "X1 ! e ! r ! c = dense_point L poses depths intrinsics (ii ! e) (jj ! e) r c"
      using r c s by (simp add: e1 dense_point_def)
    have "x1 ! e = map (map (\<lambda>P. project P (item intrinsics (jj ! e)) False)) (X1 ! e)"
      unfolding x1_def using e len l1 by (subst proj_nth) simp_all
    then have a: "x1 ! e ! r ! c
        = project (dense_point L poses depths intrinsics (ii ! e) (jj ! e) r c)
            (item intrinsics (jj ! e)) False"
      using r c s p1 by (simp add: e1)
    have z0: "(case X0 ! e ! r ! c of (X0, Y0, Z0, W0) \<Rightarrow> Z0) = 1"
      by (simp add: s(1) source_point_def split: prod.splits)
    have "valid ! e ! r ! c
        = (\<lambda>(X1, Y1, Z1, W1) (X0, Y0, Z0, W0).
              [if Z1 > MIN_DEPTH \<and> Z0 > MIN_DEPTH then (1 :: real) else 0])
            (X1 ! e ! r ! c) (X0 ! e ! r ! c)"
      using e r c s l0 l1 by (simp add: valid_def e1)
    also have "\<dots> = [Zflag (X1 ! e ! r ! c)]"
      using z0 by (simp add: Zflag_def MIN_DEPTH_def split: prod.splits)
    finally show ?thesis using a p1 by simp
  qed
  show ?thesis using run lx lv pix by blast
qed

lemma project_below_floor:
  assumes "Zof P < 1 / 10"
  shows "project P K False = floor_pixel K P" and "Zflag P = 0"
  using assms
  by (auto simp: project_def floor_pixel_def Zflag_def Zof_def max_def split: prod.splits)

lemmas dense_simps = projective_transform_def getitem_def in_range_def wrap_def item_def
  iproj_disps_def proj_def MIN_DEPTH_def

text \<open>
  C4 fails as stated: \<open>projective_transform\<close> projects with \<open>proj\<close>, not with
  \<open>proj_disps\<close>. For a frame moved by \<open>-0.95\<close> along the optical axis, the pixel of
  column 1 with depth-map value 1 is transformed to \<open>(1, 0, 0.05, 1)\<close>; the dense path
  returns \<open>x = 10\<close> for it (\<open>Z\<close> clamped to \<open>0.1\<close>), where the substitution of \<open>1.0\<close>
  for \<open>Z\<close>, which is what \<open>proj_disps\<close> computes, gives \<open>x = 1\<close>.
\<close>

theorem dense_substitution_counterexample:
  "projective_transform SE3 [((0, 0, 0), (0, 0, 0, 1)), ((0, 0, - (19 / 20)), (0, 0, 0, 1))]
     [[[1, 1]], [[1, 1]]] [(1, 1, 0, 0), (1, 1, 0, 0)] [0] [1]
     = Inr ([[[[0, 0], [10, 0]]]], [[[[0], [0]]]])
   \<and> dense_point SE3 [((0, 0, 0), (0, 0, 0, 1)), ((0, 0, - (19 / 20)), (0, 0, 0, 1))]
       [[[1, 1]], [[1, 1]]] [(1, 1, 0, 0), (1, 1, 0, 0)] 0 1 0 1 = (1, 0, 1 / 20, 1)
   \<and> fst (proj_disps [[[(1, 0, 1 / 20, 1)]]] [(1, 1, 0, 0)] False False) = [[[[1, 0]]]]"
  by (simp add: dense_simps se3_simps dense_point_def dense_pose_def source_point_def
      proj_disps_def)

text \<open>
  C4, as amended. In the dense path every pixel is projected with the clamp of \<open>proj\<close>:
  the pixel of a transformed point \<open>(X, Y, Z, W)\<close> is \<open>(fx\<cdot>d\<cdot>X + cx, fy\<cdot>d\<cdot>Y + cy)\<close>
  with \<open>d = 1/max(Z, 0.1)\<close> in \<open>(0, 10]\<close>, and a point with \<open>Z < 0.1\<close> gets \<open>d = 10\<close>
  and validity 0.
\<close>

theorem dense_projection_clamps:
  assumes "wf_dense poses depths intrinsics ii jj"
  shows "\<exists>x1 valid. projective_transform L poses depths intrinsics ii jj = Inr (x1, valid)
           \<and> (\<forall>e < length ii. \<forall>r < length (item depths (ii ! e)).
                \<forall>c < length (item depths (ii ! e) ! r).
                (let P = dense_point L poses depths intrinsics (ii ! e) (jj ! e) r c;
                     K = item intrinsics (jj ! e)
                 in clamped_pixel K P (x1 ! e ! r ! c)
                    \<and> (Zof P < 1 / 10 \<longrightarrow>
                         x1 ! e ! r ! c = floor_pixel K P \<and> valid ! e ! r ! c = [0])))"
proof -
  obtain x1 valid where run: "projective_transform L poses depths intrinsics ii jj = Inr (x1, valid)"
    and pix: "\<And>e r c. e < length ii \<Longrightarrow> r < length (item depths (ii ! e)) \<Longrightarrow>
                c < length (item depths (ii ! e) ! r) \<Longrightarrow>
                  x1 ! e ! r ! c
                    = project (dense_point L poses depths intrinsics (ii ! e) (jj ! e) r c)
                        (item intrinsics (jj ! e)) False
                  \<and> valid ! e ! r ! c
                    = [Zflag (dense_point L poses depths intrinsics (ii ! e) (jj ! e) r c)]"
    using dense_result [OF assms, of L] by blast
  have "\<forall>e < length ii. \<forall>r < length (item depths (ii ! e)).
                \<forall>c < length (item depths (ii ! e) ! r).
                (let P = dense_point L poses depths intrinsics (ii ! e) (jj ! e) r c;
                     K = item intrinsics (jj ! e)
                 in clamped_pixel K P (x1 ! e ! r ! c)
                    \<and> (Zof P < 1 / 10 \<longrightarrow>
                         x1 ! e ! r ! c = floor_pixel K P \<and> valid ! e ! r ! c = [0]))"
    unfolding Let_def
    using pix by (simp add: clamped_pixel_project project_below_floor)
  then show ?thesis using run by blast
qed

theorem dense_projection_clamps_witness:
  "wf_dense [((0, 0, 0), (0, 0, 0, 1)), ((0, 0, - (19 / 20)), (0, 0, 0, 1))]
     [[[1, 1]], [[1, 1]]] [(1, 1, 0, 0), (1, 1, 0, 0)] [0] [1] \<and>
   (\<exists>x1 valid.
      projective_transform SE3 [((0, 0, 0), (0, 0, 0, 1)), ((0, 0, - (19 / 20)), (0, 0, 0, 1))]
        [[[1, 1]], [[1, 1]]] [(1, 1, 0, 0), (1, 1, 0, 0)] [0] [1] = Inr (x1, valid)
      \<and> x1 ! 0 ! 0 ! 1 = [10, 0] \<and> valid ! 0 ! 0 ! 1 = [0])"
proof -
  have w: "wf_dense [((0, 0, 0), (0, 0, 0, 1)), ((0, 0, - (19 / 20)), (0, 0, 0, 1))]
     [[[1, 1]], [[1, 1]]] [(1, 1, 0, 0), (1, 1, 0, 0)] [0] [1]"
    by (simp add: wf_dense_def in_range_def wrap_def)
  have P: "dense_point SE3 [((0, 0, 0), (0, 0, 0, 1)), ((0, 0, - (19 / 20)), (0, 0, 0, 1))]
       [[[1, 1]], [[1, 1]]] [(1, 1, 0, 0), (1, 1, 0, 0)] 0 1 0 (Suc 0) = (1, 0, 1 / 20, 1)"
    by (simp add: se3_simps dense_point_def dense_pose_def source_point_def item_def wrap_def)
  show ?thesis
    using w dense_projection_clamps [OF w, of SE3]
    by (auto simp: item_def wrap_def P [simplified item_def wrap_def] Zof_def floor_pixel_def
        Let_def)
qed

lemma rne_error: "\<bar>of_int (rne t) - t\<bar> \<le> 1 / 2"
  unfolding rne_def Let_def by (auto; linarith)

lemma expo_up_spec:
  "2 powi e \<le> x \<Longrightarrow> x < 2 powi (e + int n) \<Longrightarrow>
   2 powi (expo_up n x e) \<le> x \<and> x < 2 powi (expo_up n x e + 1)"
proof (induction n x e rule: expo_up.induct)
  case (1 n x e)
  show ?case
  proof (cases "n = 0 \<or> x < 2 powi (e + 1)")
    case True
    then show ?thesis
      using 1(2,3) by (subst (1 2) expo_up.simps) auto
  next
    case False
    then have n: "n \<noteq> 0" and x: "2 powi (e + 1) \<le> x" by auto
    have "x < 2 powi (e + 1 + int (n - 1))"
      using 1(3) n by (simp add: algebra_simps)
    then have "2 powi (expo_up (n - 1) x (e + 1)) \<le> x
        \<and> x < 2 powi (expo_up (n - 1) x (e + 1) + 1)"
      using 1(1) False x by blast
    then show ?thesis
      using False by (subst (1 2) expo_up.simps) simp
  qed
qed

lemma expo_down_spec:
  "x < 2 powi (e + 1) \<Longrightarrow> 2 powi (e - int n) \<le> x \<Longrightarrow>
   2 powi (expo_down n x e) \<le> x \<and> x < 2 powi (expo_down n x e + 1)"
proof (induction n x e rule: expo_down.induct)
  case (1 n x e)
  show ?case
  proof (cases "n = 0 \<or> 2 powi e \<le> x")
    case True
    then show ?thesis
      using 1(2,3) by (subst (1 2) expo_down.simps) auto
  next
    case False
    then have n: "n \<noteq> 0" and x: "x < 2 powi e" by auto
    have "2 powi (e - 1 - int (n - 1)) \<le> x"
      using 1(3) n by (simp add: algebra_simps)
    moreover have "x < 2 powi (e - 1 + 1)" using x by simp
    ultimately have "2 powi (expo_down (n - 1) x (e - 1)) \<le> x
        \<and> x < 2 powi (expo_down (n - 1) x (e - 1) + 1)"
      using 1(1) False by blast
    then show ?thesis
      using False by (subst (1 2) expo_down.simps) simp
  qed
qed

lemma expo_spec:
  assumes "x \<noteq> 0"
  shows "2 powi (expo x) \<le> \<bar>x\<bar> \<and> \<bar>x\<bar> < 2 powi (expo x + 1)"
proof (cases "1 \<le> \<bar>x\<bar>")
  case True
  define m where "m = nat \<lceil>\<bar>x\<bar>\<rceil>"
  have "\<bar>x\<bar> \<le> of_int \<lceil>\<bar>x\<bar>\<rceil>" by linarith
  also have "\<dots> = of_nat m" using True by (simp add: m_def)
  also have "\<dots> < (2 :: real) ^ m" by (rule of_nat_less_two_power)
  finally have "\<bar>x\<bar> < 2 powi (0 + int m)"
    by simp
  moreover have "2 powi 0 \<le> \<bar>x\<bar>" using True by simp
  ultimately show ?thesis
    using True expo_up_spec [of 0 "\<bar>x\<bar>" m] by (simp add: expo_def m_def)
next
  case False
  define n where "n = nat \<lceil>1 / \<bar>x\<bar>\<rceil>"
  have pos: "0 < \<bar>x\<bar>" using assms by simp
  have "1 / \<bar>x\<bar> \<le> of_int \<lceil>1 / \<bar>x\<bar>\<rceil>" by linarith
  also have "\<dots> = of_nat n" using pos by (simp add: n_def)
  also have "\<dots> < (2 :: real) ^ n" by (rule of_nat_less_two_power)
  also have "\<dots> \<le> 2 ^ (n + 1)" by simp
  finally have "1 / \<bar>x\<bar> < 2 ^ (n + 1)" .
  then have "1 < 2 ^ (n + 1) * \<bar>x\<bar>" using pos by (simp add: field_simps)
  then have "1 / 2 ^ (n + 1) < \<bar>x\<bar>" by (simp add: field_simps)
  moreover have "(2 :: real) powi (- 1 - int n) = 1 / 2 ^ (n + 1)"
  proof -
    have "- 1 - int n = - int (n + 1)" by simp
    then have "(2 :: real) powi (- 1 - int n) = inverse (2 powi int (n + 1))"
      by (simp only: power_int_minus)
    also have "(2 :: real) powi int (n + 1) = 2 ^ (n + 1)"
      by (rule power_int_of_nat)
    finally show ?thesis by (simp only: inverse_eq_divide)
  qed
  ultimately have lo: "2 powi (- 1 - int n) \<le> \<bar>x\<bar>" by simp
  have hi: "\<bar>x\<bar> < 2 powi (- 1 + 1)" using False by simp
  show ?thesis
    using False expo_down_spec [OF hi lo] by (simp add: expo_def n_def)
qed

lemma fl32_error: "\<bar>fl32 x - x\<bar> \<le> \<bar>x\<bar> / 2 ^ 24"
proof (cases "x = 0")
  case True
  then show ?thesis by (simp add: fl32_def)
next
  case False
  define q :: real where "q = 2 powi (expo x - 23)"
  have q: "0 < q" by (simp add: q_def)
  have "fl32 x - x = (of_int (rne (x / q)) - x / q) * q"
    using False q by (simp add: fl32_def q_def [symmetric] Let_def field_simps)
  then have "\<bar>fl32 x - x\<bar> = \<bar>of_int (rne (x / q)) - x / q\<bar> * q"
    using q by (simp add: abs_mult)
  also have "\<dots> \<le> (1 / 2) * q"
    using rne_error [of "x / q"] q by (intro mult_right_mono) simp_all
  also have "\<dots> = 2 powi (expo x) / 2 ^ 24"
    by (simp add: q_def power_int_diff)
  also have "\<dots> \<le> \<bar>x\<bar> / 2 ^ 24"
    using expo_spec [OF False] by (simp add: divide_right_mono)
  finally show ?thesis .
qed

lemmas fl32_eval = fl32_def expo_def expo_up.simps expo_down.simps rne_def Let_def

lemma fl_exact:
  "iproj_fl (\<lambda>t. t) patch K = inverse_project patch K"
  "proj_fl (\<lambda>t. t) P K = project P K False"
  by (simp_all add: iproj_fl_def proj_fl_def inverse_project_def project_def Let_def
      mult.assoc split: prod.splits)

lemma rel_factor:
  fixes rnd :: "real \<Rightarrow> real"
  assumes "\<forall>t. \<bar>rnd t - t\<bar> \<le> u * \<bar>t\<bar>"
  shows "\<exists>\<rho>. rnd t = t * \<rho> \<and> \<bar>\<rho> - 1\<bar> \<le> u"
proof (cases "t = 0")
  case True
  have "\<bar>rnd 0 - 0\<bar> \<le> u * \<bar>0 :: real\<bar>" using assms by blast
  then have r0: "rnd 0 = 0" by simp
  have "\<bar>rnd 1 - 1\<bar> \<le> u * \<bar>1 :: real\<bar>" using assms by blast
  moreover have "0 \<le> \<bar>rnd 1 - 1\<bar>" by simp
  ultimately have "0 \<le> u" by simp
  then show ?thesis using True r0 by (intro exI [of _ 1]) simp
next
  case False
  have "rnd t / t - 1 = (rnd t - t) / t"
    using False by (simp add: field_simps)
  then have "\<bar>rnd t / t - 1\<bar> = \<bar>rnd t - t\<bar> / \<bar>t\<bar>"
    by (simp only: abs_divide)
  also have "\<dots> \<le> u"
    using assms [rule_format, of t] False by (simp add: field_simps)
  finally show ?thesis
    using False by (intro exI [of _ "rnd t / t"]) simp
qed

lemma factor_mult:
  fixes a b :: real
  assumes "\<bar>a - 1\<bar> \<le> \<alpha>" "\<bar>b - 1\<bar> \<le> \<beta>"
  shows "\<bar>a * b - 1\<bar> \<le> (1 + \<alpha>) * (1 + \<beta>) - 1"
proof -
  have e: "a * b - 1 = (a - 1) * (b - 1) + (a - 1) + (b - 1)" by (simp add: algebra_simps)
  have "\<bar>(a - 1) * (b - 1) + (a - 1) + (b - 1)\<bar> \<le> \<bar>a - 1\<bar> * \<bar>b - 1\<bar> + \<bar>a - 1\<bar> + \<bar>b - 1\<bar>"
    using abs_triangle_ineq [of "(a - 1) * (b - 1) + (a - 1)" "b - 1"]
      abs_triangle_ineq [of "(a - 1) * (b - 1)" "a - 1"]
    by (simp add: abs_mult)
  moreover have "\<bar>a - 1\<bar> * \<bar>b - 1\<bar> \<le> \<alpha> * \<beta>"
  proof (rule mult_mono)
    show "0 \<le> \<alpha>" using assms(1) abs_ge_zero [of "a - 1"] by linarith
  qed (use assms in simp_all)
  ultimately have "\<bar>a * b - 1\<bar> \<le> \<alpha> * \<beta> + \<alpha> + \<beta>"
    using assms unfolding e by linarith
  then show ?thesis by (simp add: algebra_simps)
qed

lemma factor_power:
  fixes a b :: real
  assumes "\<bar>a - 1\<bar> \<le> (1 + u) ^ k - 1" "\<bar>b - 1\<bar> \<le> u"
  shows "\<bar>a * b - 1\<bar> \<le> (1 + u) ^ Suc k - 1"
  using factor_mult [OF assms] by (simp add: algebra_simps)

lemma scalar_roundtrip:
  fixes rnd :: "real \<Rightarrow> real"
  assumes std: "\<forall>t. \<bar>rnd t - t\<bar> \<le> u * \<bar>t\<bar>" and u: "u \<le> 1" and f: "f \<noteq> 0"
  shows "\<bar>rnd (rnd (f * rnd (rnd (1 / max 1 (rnd (1 / 10))) * rnd (rnd (v - c) / f))) + c) - v\<bar>
         \<le> ((1 + u) ^ 6 - 1) * \<bar>v - c\<bar> + u * \<bar>c\<bar>"
proof -
  obtain r1 where r1: "rnd (v - c) = (v - c) * r1" "\<bar>r1 - 1\<bar> \<le> u"
    using rel_factor [OF std] by blast
  obtain r2 where r2: "rnd ((v - c) * r1 / f) = (v - c) * r1 / f * r2" "\<bar>r2 - 1\<bar> \<le> u"
    using rel_factor [OF std] by blast
  have "\<bar>rnd (1 / 10) - 1 / 10\<bar> \<le> u * \<bar>1 / 10\<bar>" using std by blast
  then have "\<bar>rnd (1 / 10) - 1 / 10\<bar> \<le> u * (1 / 10)" by simp
  moreover have "rnd (1 / 10) - 1 / 10 \<le> \<bar>rnd (1 / 10) - 1 / 10\<bar>" by (rule abs_ge_self)
  ultimately have "rnd (1 / 10) \<le> 1" using u by linarith
  then have m: "max 1 (rnd (1 / 10)) = 1" by simp
  obtain r3 where r3: "rnd 1 = 1 * r3" "\<bar>r3 - 1\<bar> \<le> u"
    using rel_factor [OF std] by blast
  obtain r4 where r4: "rnd (r3 * ((v - c) * r1 / f * r2)) = r3 * ((v - c) * r1 / f * r2) * r4"
    "\<bar>r4 - 1\<bar> \<le> u"
    using rel_factor [OF std] by blast
  obtain r5 where r5: "rnd (f * (r3 * ((v - c) * r1 / f * r2) * r4))
      = f * (r3 * ((v - c) * r1 / f * r2) * r4) * r5" "\<bar>r5 - 1\<bar> \<le> u"
    using rel_factor [OF std] by blast
  define P where "P = r1 * r2 * r3 * r4 * r5"
  have a4: "f * (r3 * ((v - c) * r1 / f * r2) * r4) * r5 = (v - c) * P"
    using f by (simp add: P_def)
  obtain r6 where r6: "rnd ((v - c) * P + c) = ((v - c) * P + c) * r6" "\<bar>r6 - 1\<bar> \<le> u"
    using rel_factor [OF std] by blast
  have "\<bar>r1 - 1\<bar> \<le> (1 + u) ^ 1 - 1" using r1(2) by simp
  then have "\<bar>r1 * r2 - 1\<bar> \<le> (1 + u) ^ Suc 1 - 1" using r2(2) by (rule factor_power)
  then have "\<bar>r1 * r2 * r3 - 1\<bar> \<le> (1 + u) ^ Suc (Suc 1) - 1" using r3(2) by (rule factor_power)
  then have "\<bar>r1 * r2 * r3 * r4 - 1\<bar> \<le> (1 + u) ^ Suc (Suc (Suc 1)) - 1"
    using r4(2) by (rule factor_power)
  then have "\<bar>P - 1\<bar> \<le> (1 + u) ^ Suc (Suc (Suc (Suc 1))) - 1"
    unfolding P_def using r5(2) by (rule factor_power)
  then have "\<bar>P * r6 - 1\<bar> \<le> (1 + u) ^ Suc (Suc (Suc (Suc (Suc 1)))) - 1"
    using r6(2) by (rule factor_power)
  then have P6: "\<bar>P * r6 - 1\<bar> \<le> (1 + u) ^ 6 - 1"
    by (simp add: eval_nat_numeral)
  have res: "rnd (rnd (f * rnd (rnd (1 / max 1 (rnd (1 / 10))) * rnd (rnd (v - c) / f))) + c)
      = ((v - c) * P + c) * r6"
    by (simp only: m r1 r2 r3 r4 r5 a4 r6 div_by_1 mult_1)
  have "((v - c) * P + c) * r6 - v = (v - c) * (P * r6 - 1) + c * (r6 - 1)"
    by (simp add: algebra_simps)
  then have "\<bar>((v - c) * P + c) * r6 - v\<bar> \<le> \<bar>v - c\<bar> * \<bar>P * r6 - 1\<bar> + \<bar>c\<bar> * \<bar>r6 - 1\<bar>"
    using abs_triangle_ineq [of "(v - c) * (P * r6 - 1)" "c * (r6 - 1)"]
    by (simp add: abs_mult)
  also have "\<dots> \<le> \<bar>v - c\<bar> * ((1 + u) ^ 6 - 1) + \<bar>c\<bar> * u"
    using P6 r6(2) by (intro add_mono mult_left_mono) simp_all
  finally show ?thesis
    unfolding res by (simp add: mult.commute)
qed

lemma six_roundings:
  fixes u :: real
  assumes "0 \<le> u" "u \<le> 1 / 2 ^ 24"
  shows "(1 + u) ^ 6 - 1 \<le> 7 * u"
proof -
  have e: "(1 + u) ^ 6 - 1
      = u * ((1 + u) ^ 5 + (1 + u) ^ 4 + (1 + u) ^ 3 + (1 + u) ^ 2 + (1 + u) + 1)"
    by (simp add: eval_nat_numeral algebra_simps)
  have b: "(1 + u) ^ k \<le> (1 + 1 / 2 ^ 24) ^ k" for k
    using assms by (intro power_mono) simp_all
  have "(1 + u) ^ 5 + (1 + u) ^ 4 + (1 + u) ^ 3 + (1 + u) ^ 2 + (1 + u) + 1
      \<le> (1 + 1 / 2 ^ 24) ^ 5 + (1 + 1 / 2 ^ 24) ^ 4 + (1 + 1 / 2 ^ 24) ^ 3
          + (1 + 1 / 2 ^ 24) ^ 2 + (1 + 1 / 2 ^ 24) + (1 :: real)"
    using b [of 5] b [of 4] b [of 3] b [of 2] assms(2) by linarith
  also have "\<dots> \<le> 7" by (simp add: power_divide)
  finally show ?thesis
    unfolding e using assms(1) by (simp add: mult_left_mono mult.commute)
qed

lemma tolerance_from_bound:
  fixes u e v c :: real
  assumes "0 \<le> u" "u \<le> 1 / 2 ^ 24"
    and "e \<le> ((1 + u) ^ 6 - 1) * \<bar>v - c\<bar> + u * \<bar>c\<bar>" "7 * \<bar>v - c\<bar> + \<bar>c\<bar> \<le> 1677"
  shows "e \<le> 1 / 10000"
proof -
  have "((1 + u) ^ 6 - 1) * \<bar>v - c\<bar> \<le> 7 * u * \<bar>v - c\<bar>"
    using six_roundings [OF assms(1,2)] by (intro mult_right_mono) simp_all
  then have "e \<le> u * (7 * \<bar>v - c\<bar> + \<bar>c\<bar>)"
    using assms(3) by (simp add: algebra_simps)
  also have "\<dots> \<le> u * 1677"
    using assms(1,4) by (intro mult_left_mono)
  also have "\<dots> \<le> (1 / 2 ^ 24) * 1677"
    using assms(2) by (intro mult_right_mono) simp_all
  also have "\<dots> \<le> 1 / 10000" by simp
  finally show ?thesis .
qed

lemma std_nonneg:
  fixes rnd :: "real \<Rightarrow> real"
  assumes "\<forall>t. \<bar>rnd t - t\<bar> \<le> u * \<bar>t\<bar>"
  shows "0 \<le> u"
proof -
  have "\<bar>rnd 1 - 1\<bar> \<le> u * \<bar>1 :: real\<bar>" using assms by blast
  moreover have "0 \<le> \<bar>rnd 1 - 1\<bar>" by simp
  ultimately show ?thesis by simp
qed

text \<open>
  C7 fails as stated on the program's arithmetic. In float32, with \<open>fy = 400\<close>,
  \<open>cy = 200\<close> and depth \<open>0.5\<close>, the pixel row \<open>y = 1800.5\<close> comes back as
  \<open>1800.4998779296875\<close>, off by \<open>2\<^sup>-\<^sup>1\<^sup>3 > 1e-4\<close>; all inputs are float32 numbers.
\<close>

theorem roundtrip_tolerance_counterexample:
  "proj_fl fl32 (iproj_fl fl32 (200, 3601 / 2, 1 / 2) (400, 400, 200, 200)) (400, 400, 200, 200)
     = [200, 14749695 / 8192]
   \<and> \<bar>14749695 / 8192 - 3601 / 2\<bar> > (1 / 10000 :: real)
   \<and> fl32 (3601 / 2) = 3601 / 2 \<and> fl32 400 = 400 \<and> fl32 200 = 200 \<and> fl32 (1 / 2) = 1 / 2"
  by (simp add: iproj_fl_def proj_fl_def fl32_eval)

text \<open>
  C7, as amended. In floating-point arithmetic whose every operation has relative error
  at most \<open>u\<close> (float32 rounding to nearest has \<open>u = 2\<^sup>-\<^sup>2\<^sup>4\<close>), and for non-zero focal
  lengths, inverse projection followed by projection with the same intrinsics returns
  each pixel coordinate \<open>v\<close> with principal point \<open>c\<close> within
  \<open>((1+u)\<^sup>6 - 1)\<cdot>|v - c| + u\<cdot>|c|\<close>, whatever the depth; for \<open>u \<le> 2\<^sup>-\<^sup>2\<^sup>4\<close> this is within
  \<open>1e-4\<close> whenever \<open>7\<cdot>|v - c| + |c| \<le> 1677\<close>.
\<close>

theorem roundtrip_float_bound:
  fixes rnd :: "real \<Rightarrow> real"
  assumes "\<forall>t. \<bar>rnd t - t\<bar> \<le> u * \<bar>t\<bar>" "u \<le> 1 / 2 ^ 24" "fx \<noteq> 0" "fy \<noteq> 0"
  shows "\<exists>x' y'. proj_fl rnd (iproj_fl rnd (x, y, d) (fx, fy, cx, cy)) (fx, fy, cx, cy) = [x', y']
           \<and> \<bar>x' - x\<bar> \<le> ((1 + u) ^ 6 - 1) * \<bar>x - cx\<bar> + u * \<bar>cx\<bar>
           \<and> \<bar>y' - y\<bar> \<le> ((1 + u) ^ 6 - 1) * \<bar>y - cy\<bar> + u * \<bar>cy\<bar>
           \<and> (7 * \<bar>x - cx\<bar> + \<bar>cx\<bar> \<le> 1677 \<longrightarrow> \<bar>x' - x\<bar> \<le> 1 / 10000)
           \<and> (7 * \<bar>y - cy\<bar> + \<bar>cy\<bar> \<le> 1677 \<longrightarrow> \<bar>y' - y\<bar> \<le> 1 / 10000)"
proof -
  have u0: "0 \<le> u" using assms(1) by (rule std_nonneg)
  have u1: "u \<le> 1" using assms(2) by (rule order_trans) simp
  define x' where "x' = rnd (rnd (fx * rnd (rnd (1 / max 1 (rnd (1 / 10))) * rnd (rnd (x - cx) / fx))) + cx)"
  define y' where "y' = rnd (rnd (fy * rnd (rnd (1 / max 1 (rnd (1 / 10))) * rnd (rnd (y - cy) / fy))) + cy)"
  have run: "proj_fl rnd (iproj_fl rnd (x, y, d) (fx, fy, cx, cy)) (fx, fy, cx, cy) = [x', y']"
    by (simp add: proj_fl_def iproj_fl_def Let_def x'_def y'_def)
  have bx: "\<bar>x' - x\<bar> \<le> ((1 + u) ^ 6 - 1) * \<bar>x - cx\<bar> + u * \<bar>cx\<bar>"
    unfolding x'_def using assms(1) u1 assms(3) by (rule scalar_roundtrip)
  have ey: "\<bar>y' - y\<bar> \<le> ((1 + u) ^ 6 - 1) * \<bar>y - cy\<bar> + u * \<bar>cy\<bar>"
    unfolding y'_def using assms(1) u1 assms(4) by (rule scalar_roundtrip)
  show ?thesis
    using run bx ey tolerance_from_bound [OF u0 assms(2) bx]
      tolerance_from_bound [OF u0 assms(2) ey]
    by blast
qed

theorem roundtrip_float_bound_witness:
  "(\<forall>t. \<bar>fl32 t - t\<bar> \<le> 1 / 2 ^ 24 * \<bar>t\<bar>) \<and>
   (\<exists>x' y'. proj_fl fl32 (iproj_fl fl32 (320, 240, 1 / 2) (500, 400, 300, 200))
               (500, 400, 300, 200) = [x', y']
      \<and> \<bar>x' - 320\<bar> \<le> 1 / 10000 \<and> \<bar>y' - 240\<bar> \<le> 1 / 10000)"
proof -
  have std: "\<forall>t. \<bar>fl32 t - t\<bar> \<le> 1 / 2 ^ 24 * \<bar>t\<bar>"
    using fl32_error by simp
  show ?thesis
    using std roundtrip_float_bound [OF std order_refl, of 500 400 320 240 "1 / 2" 300 200]
    by auto
qed

lemma proj1_behind:
  assumes "Z < - (2 / 10)"
  shows "proj1 (fx, fy, cx, cy) (X, Y, Z, W) = [fx * 10 * X + cx, fy * 10 * Y + cy]"
  using assms by (simp add: proj1_def proj_def max_def)

lemma Jp_behind:
  assumes "Z < - (2 / 10)"
  shows "Jp (fx, fy, cx, cy) (X, Y, Z, W)
     = [[fx * (1 / Z), 0, - fx * X * (1 / Z) * (1 / Z), 0],
        [0, fy * (1 / Z), - fy * Y * (1 / Z) * (1 / Z), 0]]"
  using assms by (intro Jp_far) simp

lemma Jp_not_proj_behind:
  assumes Z: "Z < - (2 / 10)" and f: "fx \<noteq> 0 \<or> fy \<noteq> 0"
  shows "\<not> is_jacobian (proj1 (fx, fy, cx, cy)) (X, Y, Z, W) (Jp (fx, fy, cx, cy) (X, Y, Z, W))"
proof
  assume J: "is_jacobian (proj1 (fx, fy, cx, cy)) (X, Y, Z, W) (Jp (fx, fy, cx, cy) (X, Y, Z, W))"
  have Zi: "1 / Z < 0" using Z by simp
  have px: "(\<lambda>t. proj1 (fx, fy, cx, cy) (t, Y, Z, W) ! 0) = (\<lambda>t. fx * 10 * t + cx)"
    and py: "(\<lambda>t. proj1 (fx, fy, cx, cy) (X, t, Z, W) ! 1) = (\<lambda>t. fy * 10 * t + cy)"
    using Z by (simp_all add: proj1_behind)
  have "DERIV (\<lambda>t. proj1 (fx, fy, cx, cy) (t, Y, Z, W) ! 0) X :> fx * (1 / Z)"
    using J by (simp add: is_jacobian_def partials_def Jp_behind [OF Z])
  then have "DERIV (\<lambda>t. fx * 10 * t + cx) X :> fx * (1 / Z)"
    by (simp only: px)
  then have "fx * (1 / Z) = fx * 10"
    using deriv_linear [of fx 10 cx X] by (rule DERIV_unique)
  then have "fx * (1 / Z - 10) = 0" by (simp add: right_diff_distrib)
  moreover have nz: "1 / Z - 10 \<noteq> 0" using Zi by linarith
  ultimately have x0: "fx = 0" by simp
  have "DERIV (\<lambda>t. proj1 (fx, fy, cx, cy) (X, t, Z, W) ! 1) Y :> fy * (1 / Z)"
    using J by (simp add: is_jacobian_def partials_def Jp_behind [OF Z])
  then have "DERIV (\<lambda>t. fy * 10 * t + cy) Y :> fy * (1 / Z)"
    by (simp only: py)
  then have "fy * (1 / Z) = fy * 10"
    using deriv_linear [of fy 10 cy Y] by (rule DERIV_unique)
  then have "fy * (1 / Z - 10) = 0" by (simp add: right_diff_distrib)
  then have "fy = 0" using nz by simp
  then show False using x0 f by simp
qed

text \<open>
  C6 fails as stated: behind the camera, where \<open>|Z| > 0.2\<close> holds as well, \<open>proj\<close> clamps
  \<open>Z\<close> to \<open>0.1\<close> while the Jacobian branch uses \<open>d = 1/Z\<close>. At the point \<open>(1, 0, -1, 0)\<close>
  with unit intrinsics the pixel moves with slope 10 in \<open>X\<close> and the entry of \<open>Jp\<close> is
  \<open>-1\<close>, so \<open>Jp\<close> is not the derivative of the projected pixel.
\<close>

theorem projection_jacobian_counterexample:
  "\<bar>- 1 :: real\<bar> > 2 / 10
   \<and> proj1 (1, 1, 0, 0) (1, 0, - 1, 0) = [10, 0]
   \<and> Jp (1, 1, 0, 0) (1, 0, - 1, 0) = [[- 1, 0, - 1, 0], [0, - 1, 0, 0]]
   \<and> \<not> is_jacobian (proj1 (1, 1, 0, 0)) (1, 0, - 1, 0) (Jp (1, 1, 0, 0) (1, 0, - 1, 0))"
  using Jp_not_proj_behind [of "- 1" 1 1 0 0 1 0 0]
  by (simp add: proj1_def proj_def Jp_def)

text \<open>
  C6, as amended. The 2x4 block \<open>Jp\<close> of the Jacobian branch, at a point \<open>(X, Y, Z, W)\<close>:
  where \<open>|Z| \<le> 0.2\<close> it is the zero matrix (every non-constant entry carries the factor
  \<open>d\<close>, which is 0 there), and nothing fails; where \<open>Z > 0.2\<close> its entries are the partial
  derivatives, with respect to \<open>X, Y, Z, W\<close>, of the pixel that \<open>proj\<close> returns; where
  \<open>Z < -0.2\<close> its entries are those of the same formula with \<open>d = 1/Z\<close>, which is not the
  derivative of the pixel that \<open>proj\<close> returns (unless both focal lengths are 0).
\<close>

theorem projection_jacobian:
  "(\<bar>Z\<bar> \<le> 2 / 10 \<longrightarrow> Jp (fx, fy, cx, cy) (X, Y, Z, W) = [[0, 0, 0, 0], [0, 0, 0, 0]])
   \<and> (Z > 2 / 10 \<longrightarrow>
        is_jacobian (proj1 (fx, fy, cx, cy)) (X, Y, Z, W) (Jp (fx, fy, cx, cy) (X, Y, Z, W)))
   \<and> (Z < - (2 / 10) \<longrightarrow>
        Jp (fx, fy, cx, cy) (X, Y, Z, W)
          = [[fx * (1 / Z), 0, - fx * X * (1 / Z) * (1 / Z), 0],
             [0, fy * (1 / Z), - fy * Y * (1 / Z) * (1 / Z), 0]]
        \<and> (fx \<noteq> 0 \<or> fy \<noteq> 0 \<longrightarrow>
             \<not> is_jacobian (proj1 (fx, fy, cx, cy)) (X, Y, Z, W)
                   (Jp (fx, fy, cx, cy) (X, Y, Z, W))))"
  using Jp_flat [of Z "(fx, fy, cx, cy)" X Y W] Jp_proj [of Z "(fx, fy, cx, cy)" X Y W]
    Jp_behind [of Z fx fy cx cy X Y W] Jp_not_proj_behind [of Z fx fy cx cy X Y W]
  by blast

theorem projection_jacobian_witness:
  "Jp (2, 2, 1, 1) (1, 1, 1 / 10, 1) = [[0, 0, 0, 0], [0, 0, 0, 0]]
   \<and> is_jacobian (proj1 (2, 2, 1, 1)) (- 2, - 2, 4, 1)
        [[1 / 2, 0, 1 / 4, 0], [0, 1 / 2, 1 / 4, 0]]
   \<and> Jp (2, 2, 1, 1) (- 2, - 2, - 4, 1) = [[- (1 / 2), 0, 1 / 4, 0], [0, - (1 / 2), 1 / 4, 0]]
   \<and> \<not> is_jacobian (proj1 (2, 2, 1, 1)) (- 2, - 2, - 4, 1)
          [[- (1 / 2), 0, 1 / 4, 0], [0, - (1 / 2), 1 / 4, 0]]"
  using projection_jacobian [of "1 / 10" 2 2 1 1 1 1 1]
    projection_jacobian [of 4 2 2 1 1 "- 2" "- 2" 1]
    projection_jacobian [of "- 4" 2 2 1 1 "- 2" "- 2" 1]
  by (simp add: Jp_def)




end
